theory Spec2Isabelle
  imports Complex_Main "HOL-Library.AList"
begin

section \<open>Numbers\<close>

text \<open>
  Every numeric value of the program is a JavaScript \<open>number\<close>, an IEEE 754 double.
  The model keeps the special values of that type, because the program reaches them (a
  quotient \<open>0 / 0\<close> is \<open>NaN\<close>, the synchronizer starts its search at \<open>-Infinity\<close>) and
  because every comparison with \<open>NaN\<close> is false, which decides which branch a guard
  takes.

  A finite value \<open>Fin r\<close> carries a real. Every arithmetic operation computes the exact
  real result and rounds it to the nearest double, ties to even, as IEEE 754 prescribes
  for \<open>+\<close>, \<open>-\<close>, \<open>*\<close>, \<open>/\<close> and the square root: \<open>roundDouble\<close> rounds to 53
  significant bits, with the fixed spacing \<open>2 ^ -1074\<close> of the subnormal range at the
  bottom, and \<open>fl\<close> turns a rounded value beyond the largest double into an infinity.
  The model has a single zero (taken as \<open>+0\<close> where the sign of a zero divisor would
  matter).
\<close>

datatype number = Fin real | PInf | NInf | NaN

definition roundEven :: "real \<Rightarrow> int" where
  "roundEven y =
     (let n = \<lfloor>y\<rfloor>; r = y - of_int n
      in if r < 1 / 2 then n else if 1 / 2 < r then n + 1 else if even n then n else n + 1)"

definition ulpExponent :: "real \<Rightarrow> int" where
  "ulpExponent x = max (\<lfloor>log 2 \<bar>x\<bar>\<rfloor> - 52) (- 1074)"

definition roundDouble :: "real \<Rightarrow> real" where
  "roundDouble x =
     (if x = 0 then 0
      else of_int (roundEven (x / 2 powi ulpExponent x)) * 2 powi ulpExponent x)"

definition maxDouble :: real where
  "maxDouble = (2 ^ 53 - 1) * 2 ^ 971"

definition fl :: "real \<Rightarrow> number" where
  "fl x =
     (let r = roundDouble x
      in if maxDouble < r then PInf else if r < - maxDouble then NInf else Fin r)"

instantiation number :: "{plus,minus,uminus,times,inverse,ord}"
begin

fun uminus_number :: "number \<Rightarrow> number" where
  "uminus_number (Fin a) = Fin (- a)"
| "uminus_number PInf = NInf"
| "uminus_number NInf = PInf"
| "uminus_number NaN = NaN"

fun plus_number :: "number \<Rightarrow> number \<Rightarrow> number" where
  "plus_number (Fin a) (Fin b) = fl (a + b)"
| "plus_number NaN _ = NaN"
| "plus_number _ NaN = NaN"
| "plus_number PInf NInf = NaN"
| "plus_number NInf PInf = NaN"
| "plus_number PInf _ = PInf"
| "plus_number _ PInf = PInf"
| "plus_number NInf _ = NInf"
| "plus_number _ NInf = NInf"

definition minus_number :: "number \<Rightarrow> number \<Rightarrow> number" where
  "minus_number a b = a + (- b)"

fun times_number :: "number \<Rightarrow> number \<Rightarrow> number" where
  "times_number (Fin a) (Fin b) = fl (a * b)"
| "times_number NaN _ = NaN"
| "times_number _ NaN = NaN"
| "times_number (Fin a) PInf = (if a = 0 then NaN else if 0 < a then PInf else NInf)"
| "times_number (Fin a) NInf = (if a = 0 then NaN else if 0 < a then NInf else PInf)"
| "times_number PInf (Fin b) = (if b = 0 then NaN else if 0 < b then PInf else NInf)"
| "times_number NInf (Fin b) = (if b = 0 then NaN else if 0 < b then NInf else PInf)"
| "times_number PInf PInf = PInf"
| "times_number PInf NInf = NInf"
| "times_number NInf PInf = NInf"
| "times_number NInf NInf = PInf"

fun divide_number :: "number \<Rightarrow> number \<Rightarrow> number" where
  "divide_number (Fin a) (Fin b) =
     (if b = 0 then (if a = 0 then NaN else if 0 < a then PInf else NInf)
      else fl (a / b))"
| "divide_number NaN _ = NaN"
| "divide_number _ NaN = NaN"
| "divide_number (Fin a) PInf = Fin 0"
| "divide_number (Fin a) NInf = Fin 0"
| "divide_number PInf (Fin b) = (if 0 \<le> b then PInf else NInf)"
| "divide_number NInf (Fin b) = (if 0 \<le> b then NInf else PInf)"
| "divide_number PInf PInf = NaN"
| "divide_number PInf NInf = NaN"
| "divide_number NInf PInf = NaN"
| "divide_number NInf NInf = NaN"

definition inverse_number :: "number \<Rightarrow> number" where
  "inverse_number a = divide (Fin 1) a"

fun less_number :: "number \<Rightarrow> number \<Rightarrow> bool" where
  "less_number (Fin a) (Fin b) = (a < b)"
| "less_number NaN _ = False"
| "less_number _ NaN = False"
| "less_number NInf NInf = False"
| "less_number NInf _ = True"
| "less_number _ NInf = False"
| "less_number PInf _ = False"
| "less_number _ PInf = True"

definition less_eq_number :: "number \<Rightarrow> number \<Rightarrow> bool" where
  "less_eq_number a b = (a < b \<or> (a = b \<and> a \<noteq> NaN))"

instance ..

end

text \<open>
  \<open>Math.sqrt\<close>, which IEEE 754 rounds correctly, \<open>Math.pow(v, 2)\<close>, taken as the
  rounded product \<open>v * v\<close>, and \<open>Math.max\<close>.
\<close>

fun Math_sqrt :: "number \<Rightarrow> number" where
  "Math_sqrt (Fin a) = (if a < 0 then NaN else fl (sqrt a))"
| "Math_sqrt PInf = PInf"
| "Math_sqrt NInf = NaN"
| "Math_sqrt NaN = NaN"

definition Math_pow2 :: "number \<Rightarrow> number" where
  "Math_pow2 v = v * v"

fun Math_max :: "number \<Rightarrow> number \<Rightarrow> number" where
  "Math_max NaN _ = NaN"
| "Math_max _ NaN = NaN"
| "Math_max a b = (if a < b then b else a)"

fun isFinite :: "number \<Rightarrow> bool" where
  "isFinite (Fin a) = True"
| "isFinite _ = False"

text \<open>
  The reals that are doubles: rounding leaves them as they are, and they are within the
  range. The numbers that are not negative, \<open>Infinity\<close> included.
\<close>

definition exactDouble :: "real \<Rightarrow> bool" where
  "exactDouble r = (roundDouble r = r \<and> \<bar>r\<bar> \<le> maxDouble)"

fun nonNegative :: "number \<Rightarrow> bool" where
  "nonNegative (Fin r) = (0 \<le> r)"
| "nonNegative PInf = True"
| "nonNegative _ = False"

section \<open>Data model\<close>

text \<open>
  The interfaces \<open>Point2D\<close>, \<open>Joint\<close> and \<open>Frame\<close>. A marker sample is a
  \<open>Point2D & { confidence, isVisible }\<close>; its fields \<open>x\<close> and \<open>y\<close> are named
  \<open>mx\<close> and \<open>my\<close> here, and a joint's \<open>length\<close> and \<open>name\<close> are \<open>jointLength\<close>
  and \<open>jointName\<close>. The \<open>markers\<close> object of a frame is an association list in the
  object's key order: \<open>Object.entries\<close> and \<open>Object.keys\<close> enumerate it, a read
  \<open>markers[id]\<close> is \<open>map_of\<close>, and an assignment \<open>markers[id] = v\<close> is
  \<open>AList.update\<close> (in place for an existing key, appended for a new one). An object
  has each key once, which is \<open>wellFormed\<close>.
\<close>

type_synonym point = "number \<times> number"

record marker =
  mx :: number
  my :: number
  confidence :: number
  isVisible :: bool

record frame =
  frameNumber :: number
  timestamp :: number
  markers :: "(string \<times> marker) list"

record joint =
  startMarkerId :: string
  endMarkerId :: string
  jointLength :: number
  jointName :: string

definition position :: "marker \<Rightarrow> point" where
  "position m = (mx m, my m)"

definition wellFormed :: "frame \<Rightarrow> bool" where
  "wellFormed f = distinct (map fst (markers f))"

definition finiteMarker :: "marker \<Rightarrow> bool" where
  "finiteMarker m = (isFinite (mx m) \<and> isFinite (my m) \<and> isFinite (confidence m))"

definition finiteFrame :: "frame \<Rightarrow> bool" where
  "finiteFrame f = list_all (\<lambda>(k, m). finiteMarker m) (markers f)"

section \<open>Geometry\<close>

definition calculateDistance :: "point \<Rightarrow> point \<Rightarrow> number" where
  "calculateDistance p1 p2 =
     Math_sqrt (Math_pow2 (fst p2 - fst p1) + Math_pow2 (snd p2 - snd p1))"

section \<open>Length-constraint solver\<close>

text \<open>
  \<open>applyLengthConstraints\<close>. A graph node keeps the working position and the weight;
  the fields \<open>neighbors\<close> and \<open>originalPosition\<close> of the source are written and never
  read, and are left out. The graph is built from the visible markers of the frame, the
  joints are relaxed \<open>iterations\<close> times in topology order (\<open>iterations\<close> is an
  integer; the loop \<open>iter < iterations\<close> does not run when it is not positive), and
  the working positions are written back into a copy of the frame's markers.
\<close>

record node =
  newPosition :: point
  weight :: number

type_synonym graph = "(string \<times> node) list"

definition initGraph :: "frame \<Rightarrow> graph" where
  "initGraph frame =
     fold (\<lambda>(markerId, marker) graph.
             if isVisible marker
             then AList.update markerId
                    \<lparr>newPosition = (mx marker, my marker), weight = confidence marker\<rparr> graph
             else graph)
          (markers frame) []"

definition constrainJoint :: "joint \<Rightarrow> graph \<Rightarrow> graph" where
  "constrainJoint joint graph =
     (case (map_of graph (startMarkerId joint), map_of graph (endMarkerId joint)) of
        (Some startNode, Some endNode) \<Rightarrow>
          if Fin 0 < jointLength joint then
            (let startPos = newPosition startNode;
                 endPos = newPosition endNode;
                 currentDistance = calculateDistance startPos endPos
             in if Fin 0 < currentDistance then
                  (let correction = (jointLength joint - currentDistance) / currentDistance;
                       dx = fst endPos - fst startPos;
                       dy = snd endPos - snd startPos;
                       totalWeight = weight startNode + weight endNode;
                       startWeight = weight endNode / totalWeight;
                       endWeight = weight startNode / totalWeight;
                       graph1 = AList.update (startMarkerId joint)
                                  (startNode\<lparr>newPosition :=
                                     (fst startPos - dx * correction * startWeight * Fin (1/2),
                                      snd startPos - dy * correction * startWeight * Fin (1/2))\<rparr>)
                                  graph
                   in AList.update (endMarkerId joint)
                        (endNode\<lparr>newPosition :=
                           (fst endPos + dx * correction * endWeight * Fin (1/2),
                            snd endPos + dy * correction * endWeight * Fin (1/2))\<rparr>)
                        graph1)
                else graph)
          else graph
      | _ \<Rightarrow> graph)"

primrec constraintIterations :: "nat \<Rightarrow> joint list \<Rightarrow> graph \<Rightarrow> graph" where
  "constraintIterations 0 joints graph = graph"
| "constraintIterations (Suc n) joints graph =
     constraintIterations n joints (fold constrainJoint joints graph)"

definition writeBack :: "graph \<Rightarrow> (string \<times> marker) list \<Rightarrow> (string \<times> marker) list" where
  "writeBack graph ms =
     fold (\<lambda>(markerId, node) ms.
             case map_of ms markerId of
               Some m \<Rightarrow> AList.update markerId
                           (m\<lparr>mx := fst (newPosition node), my := snd (newPosition node)\<rparr>) ms
             | None \<Rightarrow> ms)
          graph ms"

definition applyLengthConstraints :: "frame \<Rightarrow> joint list \<Rightarrow> int \<Rightarrow> frame" where
  "applyLengthConstraints frame joints iterations =
     frame\<lparr>markers :=
       writeBack (constraintIterations (nat iterations) joints (initGraph frame))
         (markers frame)\<rparr>"

section \<open>Source fusion\<close>

text \<open>
  \<open>blendMarkerAndMarkerlessData\<close>: one step of the loop over the entries of the
  marker-based frame, and the loop, which writes into a copy of that frame's markers.
\<close>

definition blendMarker ::
  "frame \<Rightarrow> number \<Rightarrow> string \<times> marker \<Rightarrow> (string \<times> marker) list \<Rightarrow> (string \<times> marker) list" where
  "blendMarker markerlessFrame blendRatio =
     (\<lambda>(markerId, marker) newMarkers.
        case map_of (markers markerlessFrame) markerId of
          Some markerlessMarker \<Rightarrow>
            if isVisible marker \<and> isVisible markerlessMarker then
              (let markerWeight = confidence marker * (Fin 1 - blendRatio);
                   markerlessWeight = confidence markerlessMarker * blendRatio;
                   totalWeight = markerWeight + markerlessWeight
               in if Fin 0 < totalWeight then
                    AList.update markerId
                      (marker\<lparr>mx := (mx marker * markerWeight
                                      + mx markerlessMarker * markerlessWeight) / totalWeight,
                              my := (my marker * markerWeight
                                      + my markerlessMarker * markerlessWeight) / totalWeight,
                              confidence := Math_max (confidence marker)
                                              (confidence markerlessMarker)\<rparr>)
                      newMarkers
                  else newMarkers)
            else newMarkers
        | None \<Rightarrow> newMarkers)"

definition blendMarkerAndMarkerlessData :: "frame \<Rightarrow> frame \<Rightarrow> number \<Rightarrow> frame" where
  "blendMarkerAndMarkerlessData markerFrame markerlessFrame blendRatio =
     markerFrame\<lparr>markers :=
       fold (blendMarker markerlessFrame blendRatio) (markers markerFrame)
         (markers markerFrame)\<rparr>"

section \<open>Missing-marker estimator\<close>

text \<open>
  \<open>fillMissingMarkers\<close>. The source writes the estimation twice, once for a missing
  end marker and once for a missing start marker, with the roles of the two endpoints
  exchanged; \<open>estimatePosition\<close> is that code with the known endpoint as a parameter.
  The set \<open>processedMarkers\<close> and the vector \<open>perpendicularVector\<close> are written and
  never read, and are left out. All reads go to the input frame; the writes go to the
  copy \<open>newMarkers\<close>.
\<close>

definition estimatePosition ::
  "frame \<Rightarrow> joint list \<Rightarrow> string \<Rightarrow> marker \<Rightarrow> number \<Rightarrow> point option" where
  "estimatePosition frame joints knownId knownMarker len =
     (let connectedJoints =
            filter (\<lambda>j. (startMarkerId j = knownId \<or> endMarkerId j = knownId)
                         \<and> Fin 0 < jointLength j) joints
      in case connectedJoints of
           [] \<Rightarrow> None
         | connectedJoint # _ \<Rightarrow>
             (let connectedMarkerId =
                    (if startMarkerId connectedJoint = knownId
                     then endMarkerId connectedJoint
                     else startMarkerId connectedJoint)
              in case map_of (markers frame) connectedMarkerId of
                   Some connectedMarker \<Rightarrow>
                     if isVisible connectedMarker then
                       (let vx = mx connectedMarker - mx knownMarker;
                            vy = my connectedMarker - my knownMarker;
                            magnitude = Math_sqrt (vx * vx + vy * vy)
                        in if Fin 0 < magnitude then
                             Some (mx knownMarker + vx / magnitude * len,
                                   my knownMarker + vy / magnitude * len)
                           else None)
                     else None
                 | None \<Rightarrow> None))"

definition estimatedMarker :: "point \<Rightarrow> marker" where
  "estimatedMarker p = \<lparr>mx = fst p, my = snd p, confidence = Fin (1/2), isVisible = True\<rparr>"

definition fillJoint ::
  "frame \<Rightarrow> joint list \<Rightarrow> joint \<Rightarrow> (string \<times> marker) list \<Rightarrow> (string \<times> marker) list" where
  "fillJoint frame joints joint newMarkers =
     (case (map_of (markers frame) (startMarkerId joint),
            map_of (markers frame) (endMarkerId joint)) of
        (Some startMarker, None) \<Rightarrow>
          if isVisible startMarker \<and> Fin 0 < jointLength joint then
            (case estimatePosition frame joints (startMarkerId joint) startMarker
                    (jointLength joint) of
               Some p \<Rightarrow> AList.update (endMarkerId joint) (estimatedMarker p) newMarkers
             | None \<Rightarrow> newMarkers)
          else newMarkers
      | (None, Some endMarker) \<Rightarrow>
          if isVisible endMarker \<and> Fin 0 < jointLength joint then
            (case estimatePosition frame joints (endMarkerId joint) endMarker
                    (jointLength joint) of
               Some p \<Rightarrow> AList.update (startMarkerId joint) (estimatedMarker p) newMarkers
             | None \<Rightarrow> newMarkers)
          else newMarkers
      | _ \<Rightarrow> newMarkers)"

definition fillMissingMarkers :: "frame \<Rightarrow> joint list \<Rightarrow> frame" where
  "fillMissingMarkers frame joints =
     frame\<lparr>markers := fold (fillJoint frame joints) joints (markers frame)\<rparr>"

section \<open>Temporal synchronizer\<close>

text \<open>
  \<open>synchronizeData\<close>, with \<open>syncWindowSize\<close> an integer. \<open>pairMovement\<close> is the body
  of the loop of \<open>calculateMovement\<close> for one pair of adjacent frames,
  \<open>correlationAt\<close> the inner loop for one offset (the sum of the products and the number
  of valid pairs), \<open>scanOffset\<close> the body of the loop over the offsets, which carries
  \<open>bestOffset\<close> and \<open>bestCorrelation\<close>.
\<close>

definition pairMovement :: "frame \<Rightarrow> frame \<Rightarrow> number" where
  "pairMovement current prev =
     (let (totalMovement, numMarkers) =
            fold (\<lambda>markerId (totalMovement, numMarkers).
                    case (map_of (markers current) markerId, map_of (markers prev) markerId) of
                      (Some currentMarker, Some prevMarker) \<Rightarrow>
                        if isVisible currentMarker \<and> isVisible prevMarker
                        then (totalMovement
                                + calculateDistance (position currentMarker) (position prevMarker),
                              numMarkers + 1)
                        else (totalMovement, numMarkers)
                    | _ \<Rightarrow> (totalMovement, numMarkers))
                 (map fst (markers current)) (Fin 0, 0::nat)
      in if 0 < numMarkers then totalMovement / Fin (real numMarkers) else Fin 0)"

definition calculateMovement :: "frame list \<Rightarrow> number list" where
  "calculateMovement frames =
     map (\<lambda>i. pairMovement (frames ! i) (frames ! (i - 1))) [1..<length frames]"

definition correlationAt :: "number list \<Rightarrow> number list \<Rightarrow> int \<Rightarrow> int \<Rightarrow> number \<times> nat" where
  "correlationAt markerMovements markerlessMovements syncWindowSize offset =
     fold (\<lambda>i (correlation, count).
             let markerIdx = i; markerlessIdx = i + offset
             in if 0 \<le> markerIdx \<and> markerIdx < int (length markerMovements) \<and>
                   0 \<le> markerlessIdx \<and> markerlessIdx < int (length markerlessMovements)
                then (correlation
                        + markerMovements ! nat markerIdx * markerlessMovements ! nat markerlessIdx,
                      count + 1)
                else (correlation, count))
          [0..syncWindowSize - 1] (Fin 0, 0::nat)"

definition scanOffset ::
  "number list \<Rightarrow> number list \<Rightarrow> int \<Rightarrow> int \<Rightarrow> int \<times> number \<Rightarrow> int \<times> number" where
  "scanOffset markerMovements markerlessMovements syncWindowSize offset =
     (\<lambda>(bestOffset, bestCorrelation).
        let (correlation, count) =
              correlationAt markerMovements markerlessMovements syncWindowSize offset
        in if 0 < count then
             (let correlation' = correlation / Fin (real count)
              in if bestCorrelation < correlation' then (offset, correlation')
                 else (bestOffset, bestCorrelation))
           else (bestOffset, bestCorrelation))"

definition findBestOffset :: "number list \<Rightarrow> number list \<Rightarrow> int \<Rightarrow> int \<Rightarrow> int" where
  "findBestOffset markerMovements markerlessMovements syncWindowSize maxOffset =
     fst (fold (scanOffset markerMovements markerlessMovements syncWindowSize)
            [- maxOffset..maxOffset] (0, NInf))"

definition synchronizeData :: "frame list \<Rightarrow> frame list \<Rightarrow> int \<Rightarrow> frame list \<times> frame list" where
  "synchronizeData markerFrames markerlessFrames syncWindowSize =
     (if int (length markerFrames) < syncWindowSize \<or>
         int (length markerlessFrames) < syncWindowSize
      then (markerFrames, markerlessFrames)
      else
        (let markerMovements = calculateMovement markerFrames;
             markerlessMovements = calculateMovement markerlessFrames;
             maxOffset = min (int (length markerFrames) div 4)
                             (int (length markerlessFrames) div 4);
             bestOffset = findBestOffset markerMovements markerlessMovements
                            syncWindowSize maxOffset
         in if 0 < bestOffset then (drop (nat bestOffset) markerFrames, markerlessFrames)
            else if bestOffset < 0 then (markerFrames, drop (nat (- bestOffset)) markerlessFrames)
            else (markerFrames, markerlessFrames)))"

section \<open>Temporal smoothing\<close>

text \<open>
  \<open>applyTemporalSmoothing\<close>, with \<open>windowSize\<close> a real number, so that a window size
  that is not an integer is an input of the model: the source uses it only in
  \<open>windowSize <= 1\<close> and \<open>Math.floor(windowSize / 2)\<close>. \<open>windowSums\<close> is the loop over
  the frames \<open>windowStart\<close> to \<open>windowEnd\<close> for one marker, \<open>smoothMarker\<close> the body of the loop over the
  keys of frame \<open>i\<close>. In \<open>smoothMarker\<close> the read \<open>frames[i].markers[markerId]\<close> finds a
  sample, because \<open>markerId\<close> is a key of that object; the \<open>None\<close> branch is not reached.
\<close>

definition windowSums ::
  "frame list \<Rightarrow> int \<Rightarrow> int \<Rightarrow> string \<Rightarrow> number \<times> number \<times> number \<times> nat" where
  "windowSums frames windowStart windowEnd markerId =
     fold (\<lambda>j (sumX, sumY, sumConfidence, count).
             case map_of (markers (frames ! nat j)) markerId of
               Some marker \<Rightarrow>
                 if isVisible marker
                 then (sumX + mx marker * confidence marker,
                       sumY + my marker * confidence marker,
                       sumConfidence + confidence marker,
                       count + 1)
                 else (sumX, sumY, sumConfidence, count)
             | None \<Rightarrow> (sumX, sumY, sumConfidence, count))
          [windowStart..windowEnd] (Fin 0, Fin 0, Fin 0, 0::nat)"

definition windowStart :: "real \<Rightarrow> nat \<Rightarrow> int" where
  "windowStart windowSize i = max 0 (int i - \<lfloor>windowSize / 2\<rfloor>)"

definition windowEnd :: "frame list \<Rightarrow> real \<Rightarrow> nat \<Rightarrow> int" where
  "windowEnd frames windowSize i = min (int (length frames) - 1) (int i + \<lfloor>windowSize / 2\<rfloor>)"

definition smoothMarker ::
  "frame list \<Rightarrow> real \<Rightarrow> nat \<Rightarrow> string \<Rightarrow> (string \<times> marker) list \<Rightarrow> (string \<times> marker) list" where
  "smoothMarker frames windowSize i markerId newMarkers =
     (let (sumX, sumY, sumConfidence, count) =
            windowSums frames (windowStart windowSize i) (windowEnd frames windowSize i) markerId
      in if 0 < count \<and> Fin 0 < sumConfidence then
           (case map_of (markers (frames ! i)) markerId of
              Some current \<Rightarrow>
                AList.update markerId
                  \<lparr>mx = sumX / sumConfidence, my = sumY / sumConfidence,
                   confidence = confidence current, isVisible = isVisible current\<rparr>
                  newMarkers
            | None \<Rightarrow> newMarkers)
         else newMarkers)"

definition smoothFrame :: "frame list \<Rightarrow> real \<Rightarrow> nat \<Rightarrow> frame" where
  "smoothFrame frames windowSize i =
     (frames ! i)\<lparr>markers :=
       fold (smoothMarker frames windowSize i) (map fst (markers (frames ! i)))
         (markers (frames ! i))\<rparr>"

definition applyTemporalSmoothing :: "frame list \<Rightarrow> real \<Rightarrow> frame list" where
  "applyTemporalSmoothing frames windowSize =
     (if length frames \<le> 1 \<or> windowSize \<le> 1 then frames
      else map (smoothFrame frames windowSize) [0..<length frames])"

section \<open>The operations as their caller sees them\<close>

text \<open>
  A call of a JavaScript function either returns a value or throws. Neither
  \<open>applyTemporalSmoothing\<close> nor \<open>synchronizeData\<close> has a \<open>throw\<close> statement or
  validates an argument, and no step of theirs can raise (every frame they index
  exists). The outcome of a call, with \<open>Inl\<close> for a thrown error and \<open>Inr\<close> for a
  returned value, is therefore always on the right.
\<close>

datatype error = InvalidArgument

definition callApplyTemporalSmoothing :: "frame list \<Rightarrow> real \<Rightarrow> error + frame list" where
  "callApplyTemporalSmoothing frames windowSize =
     Inr (applyTemporalSmoothing frames windowSize)"

definition callSynchronizeData ::
  "frame list \<Rightarrow> frame list \<Rightarrow> int \<Rightarrow> error + frame list \<times> frame list" where
  "callSynchronizeData markerFrames markerlessFrames syncWindowSize =
     Inr (synchronizeData markerFrames markerlessFrames syncWindowSize)"

section \<open>Observations used in the statements\<close>

text \<open>
  The Euclidean distance between the samples of two markers of a frame, when the frame
  has both.
\<close>

definition markerDistance :: "frame \<Rightarrow> string \<Rightarrow> string \<Rightarrow> number option" where
  "markerDistance f a b =
     (case (map_of (markers f) a, map_of (markers f) b) of
        (Some ma, Some mb) \<Rightarrow> Some (calculateDistance (position ma) (position mb))
      | _ \<Rightarrow> None)"

text \<open>
  The average product of the two movement series at one offset, as the synchronizer
  compares it: defined when the window has at least one valid pair of indices.
\<close>

definition averageProduct :: "number list \<Rightarrow> number list \<Rightarrow> int \<Rightarrow> int \<Rightarrow> number option" where
  "averageProduct markerMovements markerlessMovements syncWindowSize offset =
     (let (correlation, count) =
            correlationAt markerMovements markerlessMovements syncWindowSize offset
      in if 0 < count then Some (correlation / Fin (real count)) else None)"

text \<open>The same, for a sequence aligned with itself.\<close>

definition selfAverage :: "frame list \<Rightarrow> int \<Rightarrow> int \<Rightarrow> number option" where
  "selfAverage frames syncWindowSize offset =
     averageProduct (calculateMovement frames) (calculateMovement frames) syncWindowSize offset"

text \<open>Shorthands for writing concrete samples, frames and joints.\<close>

definition sample :: "real \<Rightarrow> real \<Rightarrow> real \<Rightarrow> bool \<Rightarrow> marker" where
  "sample px py c v = \<lparr>mx = Fin px, my = Fin py, confidence = Fin c, isVisible = v\<rparr>"

definition mkFrame :: "(string \<times> marker) list \<Rightarrow> frame" where
  "mkFrame ms = \<lparr>frameNumber = Fin 0, timestamp = Fin 0, markers = ms\<rparr>"

definition frameAt :: "real \<Rightarrow> (string \<times> marker) list \<Rightarrow> frame" where
  "frameAt n ms = \<lparr>frameNumber = Fin n, timestamp = Fin n, markers = ms\<rparr>"

definition mkJoint :: "string \<Rightarrow> string \<Rightarrow> real \<Rightarrow> joint" where
  "mkJoint a b l = \<lparr>startMarkerId = a, endMarkerId = b, jointLength = Fin l, jointName = a @ b\<rparr>"

text \<open>
  Two sequences of four frames with the single marker \<open>A\<close>: one in which it does not
  move, one in which it moves by 2, 1 and 1 along the x axis.
\<close>

definition still4 :: "frame list" where
  "still4 = [frameAt 0 [(''A'', sample 1 1 1 True)], frameAt 1 [(''A'', sample 1 1 1 True)],
             frameAt 2 [(''A'', sample 1 1 1 True)], frameAt 3 [(''A'', sample 1 1 1 True)]]"

definition walk4 :: "frame list" where
  "walk4 = [frameAt 0 [(''A'', sample 0 0 1 True)], frameAt 1 [(''A'', sample 2 0 1 True)],
            frameAt 2 [(''A'', sample 3 0 1 True)], frameAt 3 [(''A'', sample 4 0 1 True)]]"

text \<open>A sequence of two frames, with the marker \<open>A\<close> at \<open>(1, 2)\<close> and at \<open>(3, 4)\<close>.\<close>

definition twoFrames :: "frame list" where
  "twoFrames = [mkFrame [(''A'', sample 1 2 1 True)], mkFrame [(''A'', sample 3 4 1 True)]]"

text \<open>
  The double nearest to 0.3, which is what the literal \<open>0.3\<close> denotes, and the double
  that follows 3.
\<close>

definition c03 :: real where
  "c03 = 5404319552844595 / 2 ^ 54"



section \<open>Rounding\<close>

lemma floor_log2_eq:
  assumes "2 powi e \<le> \<bar>x\<bar>" "\<bar>x\<bar> < 2 powi (e + 1)"
  shows "\<lfloor>log 2 \<bar>x\<bar>\<rfloor> = e"
proof -
  have pos: "0 < \<bar>x\<bar>"
    using assms(1) by (smt (verit) zero_less_power_int)
  have "(2::real) powr real_of_int e = 2 powi e"
    "(2::real) powr real_of_int (e + 1) = 2 powi (e + 1)"
    by (rule powr_real_of_int'; simp)+
  with assms have "2 powr real_of_int e \<le> \<bar>x\<bar>" "\<bar>x\<bar> < 2 powr real_of_int (e + 1)"
    by simp_all
  then show ?thesis
    using floor_log_eq_powr_iff [OF pos, of 2 e] by simp
qed

lemma roundDouble_eval:
  assumes "2 powi e \<le> \<bar>x\<bar>" "\<bar>x\<bar> < 2 powi (e + 1)" "q = max (e - 52) (- 1074)"
  shows "roundDouble x = of_int (roundEven (x / 2 powi q)) * 2 powi q"
proof -
  have "x \<noteq> 0"
    using assms(1) by (smt (verit) zero_less_power_int)
  then show ?thesis
    by (simp add: roundDouble_def ulpExponent_def floor_log2_eq [OF assms(1,2)] assms(3))
qed

lemma roundEven_of_int [simp]: "roundEven (of_int n) = n"
  by (simp add: roundEven_def)

lemma roundEven_nonneg: "0 \<le> y \<Longrightarrow> 0 \<le> roundEven y"
  by (auto simp: roundEven_def Let_def)

lemma roundDouble_nonneg: "0 \<le> x \<Longrightarrow> 0 \<le> roundDouble x"
  by (auto simp: roundDouble_def intro!: mult_nonneg_nonneg roundEven_nonneg divide_nonneg_nonneg)

lemma roundDouble_zero [simp]: "roundDouble 0 = 0"
  by (simp add: roundDouble_def)

lemma ulpExponent_le:
  assumes "x \<noteq> 0" "\<bar>x\<bar> < 2 powi (53 + q)" "- 1074 \<le> q"
  shows "ulpExponent x \<le> q"
proof -
  define e where "e = \<lfloor>log 2 \<bar>x\<bar>\<rfloor>"
  have pos: "0 < \<bar>x\<bar>" using assms(1) by simp
  have "2 powr real_of_int e \<le> \<bar>x\<bar>"
    using floor_log_eq_powr_iff [OF pos, of 2 e] by (simp add: e_def)
  also have "\<bar>x\<bar> < 2 powr real_of_int (53 + q)"
    using assms(2) powr_real_of_int' [of 2 "53 + q"] by simp
  finally have "e < 53 + q" by simp
  with assms(3) show ?thesis
    by (simp add: ulpExponent_def e_def [symmetric])
qed

lemma dyadic_quotient:
  assumes "q' \<le> q"
  shows "(of_int m * 2 powi q) / 2 powi q' = (of_int (m * 2 ^ nat (q - q')) :: real)"
proof -
  have "(2::real) powi q = 2 powi (q - q') * 2 powi q'"
    by (simp add: power_int_add [symmetric])
  moreover have "(2::real) powi (q - q') = 2 ^ nat (q - q')"
    using assms by (simp add: power_int_def)
  ultimately show ?thesis by simp
qed

lemma dyadic_bound:
  assumes "\<bar>m\<bar> < 2 ^ 53"
  shows "\<bar>of_int m * 2 powi q :: real\<bar> < 2 powi (53 + q)"
proof -
  have "\<bar>of_int m * 2 powi q :: real\<bar> = of_int \<bar>m\<bar> * 2 powi q"
    by (simp add: abs_mult)
  also have "\<dots> < 2 ^ 53 * 2 powi q"
  proof -
    have "(of_int \<bar>m\<bar> :: real) < of_int (2 ^ 53)"
      using assms by (simp only: of_int_less_iff)
    then show ?thesis by simp
  qed
  also have "\<dots> = 2 powi (53 + q)"
    by (simp add: power_int_add)
  finally show ?thesis .
qed

lemma roundDouble_dyadic:
  assumes "\<bar>m\<bar> < 2 ^ 53" "- 1074 \<le> q"
  shows "roundDouble (of_int m * 2 powi q) = of_int m * 2 powi q"
proof (cases "m = 0")
  case True
  then show ?thesis by simp
next
  case False
  let ?x = "of_int m * 2 powi q :: real"
  have x0: "?x \<noteq> 0" using False by simp
  have le: "ulpExponent ?x \<le> q"
    by (rule ulpExponent_le [OF x0 dyadic_bound [OF assms(1)] assms(2)])
  have "roundDouble ?x
        = of_int (roundEven (?x / 2 powi ulpExponent ?x)) * 2 powi ulpExponent ?x"
    using x0 by (simp only: roundDouble_def if_False)
  also have "\<dots> = of_int (m * 2 ^ nat (q - ulpExponent ?x)) * 2 powi ulpExponent ?x"
    by (simp only: dyadic_quotient [OF le] roundEven_of_int)
  also have "\<dots> = (?x / 2 powi ulpExponent ?x) * 2 powi ulpExponent ?x"
    by (simp only: dyadic_quotient [OF le])
  also have "\<dots> = ?x" by simp
  finally show ?thesis .
qed

lemma dyadic_le_maxDouble:
  assumes "\<bar>m\<bar> < 2 ^ 53" "q \<le> 971"
  shows "\<bar>of_int m * 2 powi q :: real\<bar> \<le> maxDouble"
proof -
  have "\<bar>m\<bar> \<le> 2 ^ 53 - 1" using assms(1) by simp
  then have "(of_int \<bar>m\<bar> :: real) \<le> of_int (2 ^ 53 - 1)"
    by (simp only: of_int_le_iff)
  then have m: "(of_int \<bar>m\<bar> :: real) \<le> 2 ^ 53 - 1" by simp
  have "(2::real) powi q \<le> 2 powi 971"
    using assms(2) by (intro power_int_increasing) simp_all
  then have q: "(2::real) powi q \<le> 2 ^ 971" by simp
  have "\<bar>of_int m * 2 powi q :: real\<bar> = of_int \<bar>m\<bar> * 2 powi q"
    by (simp add: abs_mult)
  also have "\<dots> \<le> (2 ^ 53 - 1) * 2 ^ 971"
    using m q by (intro mult_mono) simp_all
  finally show ?thesis by (simp add: maxDouble_def)
qed

lemma exactDouble_dyadic:
  "\<bar>m\<bar> < 2 ^ 53 \<Longrightarrow> - 1074 \<le> q \<Longrightarrow> q \<le> 971 \<Longrightarrow> exactDouble (of_int m * 2 powi q)"
  by (simp add: exactDouble_def roundDouble_dyadic dyadic_le_maxDouble)

lemma fl_exact: "exactDouble r \<Longrightarrow> fl r = Fin r"
  by (auto simp: exactDouble_def fl_def Let_def)

lemma fl_dyadic:
  "\<bar>m\<bar> < 2 ^ 53 \<Longrightarrow> - 1074 \<le> q \<Longrightarrow> q \<le> 971 \<Longrightarrow> x = of_int m * 2 powi q \<Longrightarrow> fl x = Fin x"
  using exactDouble_dyadic [of m q] by (simp add: fl_exact)

lemma fl_nonneg: "0 \<le> x \<Longrightarrow> nonNegative (fl x)"
  using roundDouble_nonneg [of x] by (auto simp: fl_def Let_def)

text \<open>Small numerals and their halves, quarters and eighths are doubles.\<close>

lemma fl_zero [simp]: "fl 0 = Fin 0"
  by (rule fl_dyadic [where m = 0 and q = 0]) simp_all

lemma fl_one [simp]: "fl 1 = Fin 1"
  by (rule fl_dyadic [where m = 1 and q = 0]) simp_all

lemma fl_numeral:
  "(numeral n :: int) < 2 ^ 53 \<Longrightarrow> fl (numeral n) = Fin (numeral n)"
  by (rule fl_dyadic [where m = "numeral n" and q = 0]) simp_all

lemma fl_neg_numeral:
  "(numeral n :: int) < 2 ^ 53 \<Longrightarrow> fl (- numeral n) = Fin (- numeral n)"
  by (rule fl_dyadic [where m = "- numeral n" and q = 0]) simp_all

lemma fl_minus_one [simp]: "fl (- 1) = Fin (- 1)"
  by (rule fl_dyadic [where m = "- 1" and q = 0]) simp_all

lemma fl_numeral_div:
  "(numeral n :: int) < 2 ^ 53 \<Longrightarrow> k \<le> 1074 \<Longrightarrow> fl (numeral n / 2 ^ k) = Fin (numeral n / 2 ^ k)"
  by (rule fl_dyadic [where m = "numeral n" and q = "- int k"])
    (simp_all add: power_int_minus divide_inverse)

lemma fl_neg_numeral_div:
  "(numeral n :: int) < 2 ^ 53 \<Longrightarrow> k \<le> 1074 \<Longrightarrow>
   fl (- (numeral n / 2 ^ k)) = Fin (- (numeral n / 2 ^ k))"
  by (rule fl_dyadic [where m = "- numeral n" and q = "- int k"])
    (simp_all add: power_int_minus divide_inverse)

lemma fl_one_div:
  "k \<le> 1074 \<Longrightarrow> fl (1 / 2 ^ k) = Fin (1 / 2 ^ k)"
  by (rule fl_dyadic [where m = 1 and q = "- int k"])
    (simp_all add: power_int_minus divide_inverse)

lemmas fl_small =
  fl_numeral fl_neg_numeral
  fl_numeral_div [of _ 1, simplified] fl_numeral_div [of _ 2, simplified]
  fl_numeral_div [of _ 3, simplified]
  fl_neg_numeral_div [of _ 1, simplified] fl_neg_numeral_div [of _ 2, simplified]
  fl_neg_numeral_div [of _ 3, simplified]
  fl_one_div [of 1, simplified] fl_one_div [of 2, simplified]

lemma fl_cases: "fl x = PInf \<or> fl x = NInf \<or> (\<exists>r. fl x = Fin r)"
  by (auto simp: fl_def Let_def)


text \<open>
  Rounding a value that is given with its binade: to the integer multiple of the spacing
  that is nearest, and to the even one of the two at a tie.
\<close>

lemma small_le_maxDouble: "\<bar>r\<bar> \<le> 2 ^ 64 \<Longrightarrow> \<bar>r\<bar> \<le> maxDouble"
proof -
  have "(2::real) ^ 64 \<le> 1 * 2 ^ 971"
    by simp
  also have "\<dots> \<le> maxDouble"
    unfolding maxDouble_def by (intro mult_right_mono) simp_all
  finally show "\<bar>r\<bar> \<le> 2 ^ 64 \<Longrightarrow> \<bar>r\<bar> \<le> maxDouble" by simp
qed

lemma roundEven_near:
  assumes "of_int n - 1 / 2 < y" "y < of_int n + 1 / 2"
  shows "roundEven y = n"
proof (cases "of_int n \<le> y")
  case True
  with assms(2) have "\<lfloor>y\<rfloor> = n" by (simp add: floor_eq_iff)
  with assms(2) show ?thesis by (simp add: roundEven_def Let_def)
next
  case False
  with assms(1) have "\<lfloor>y\<rfloor> = n - 1" by (simp add: floor_eq_iff)
  with assms(1) show ?thesis by (simp add: roundEven_def Let_def)
qed


lemma fl_near:
  assumes "2 powi e \<le> \<bar>x\<bar>" "\<bar>x\<bar> < 2 powi (e + 1)" "q = max (e - 52) (- 1074)"
    and "(of_int n - 1 / 2) * 2 powi q < x" "x < (of_int n + 1 / 2) * 2 powi q"
    and "r = of_int n * 2 powi q" "\<bar>r\<bar> \<le> 2 ^ 64"
  shows "fl x = Fin r"
proof -
  have "of_int n - 1 / 2 < x / 2 powi q" "x / 2 powi q < of_int n + 1 / 2"
    using assms(4,5) by (simp_all add: pos_less_divide_eq pos_divide_less_eq)
  then have "roundEven (x / 2 powi q) = n" by (rule roundEven_near)
  then have "roundDouble x = r"
    using roundDouble_eval [OF assms(1-3)] assms(6) by simp
  moreover have "\<bar>r\<bar> \<le> maxDouble"
    using assms(7) by (rule small_le_maxDouble)
  ultimately show ?thesis
    by (auto simp: fl_def Let_def)
qed


lemma exactDouble_dyadic_div:
  assumes "\<bar>m\<bar> < 2 ^ 53" "k \<le> 1074" "x = of_int m / 2 ^ k"
  shows "exactDouble x"
proof -
  have "x = of_int m * 2 powi (- int k)"
    using assms(3) by (simp add: power_int_minus divide_inverse)
  moreover have "exactDouble (of_int m * 2 powi (- int k))"
    using assms(1,2) by (intro exactDouble_dyadic) simp_all
  ultimately show ?thesis by simp
qed

lemma fl_dyadic_div:
  assumes "\<bar>m\<bar> < 2 ^ 53" "k \<le> 1074" "x = of_int m / 2 ^ k"
  shows "fl x = Fin x"
  using exactDouble_dyadic_div [OF assms] by (rule fl_exact)

text \<open>A rounded value is a double, so adding 0 to the result of an operation gives it back.\<close>

lemma roundEven_bound:
  assumes "\<bar>y\<bar> < 2 ^ 53"
  shows "\<bar>roundEven y\<bar> \<le> 2 ^ 53"
proof -
  have "\<lfloor>y\<rfloor> < 2 ^ 53"
    using assms by (simp add: floor_less_iff)
  moreover have "- (2 ^ 53) \<le> \<lfloor>y\<rfloor>"
    using assms by (simp add: le_floor_iff)
  moreover have "roundEven y = \<lfloor>y\<rfloor> \<or> roundEven y = \<lfloor>y\<rfloor> + 1"
    by (simp add: roundEven_def Let_def)
  ultimately show ?thesis
    by linarith
qed

lemma ulpExponent_bound:
  assumes "x \<noteq> 0"
  shows "\<bar>x\<bar> < 2 powi (53 + ulpExponent x)" and "- 1074 \<le> ulpExponent x"
proof -
  define e where "e = \<lfloor>log 2 \<bar>x\<bar>\<rfloor>"
  have pos: "0 < \<bar>x\<bar>" using assms by simp
  have "\<bar>x\<bar> < 2 powr real_of_int (e + 1)"
    using floor_log_eq_powr_iff [OF pos, of 2 e] by (simp add: e_def)
  also have "\<dots> = 2 powi (e + 1)"
    by (rule powr_real_of_int') simp_all
  also have "\<dots> \<le> 2 powi (53 + ulpExponent x)"
    by (intro power_int_increasing) (simp_all add: ulpExponent_def e_def)
  finally show "\<bar>x\<bar> < 2 powi (53 + ulpExponent x)" .
  show "- 1074 \<le> ulpExponent x"
    by (simp add: ulpExponent_def)
qed

lemma roundDouble_idem: "roundDouble (roundDouble x) = roundDouble x"
proof (cases "x = 0")
  case True
  then show ?thesis by simp
next
  case False
  define q where "q = ulpExponent x"
  define n where "n = roundEven (x / 2 powi q)"
  have r: "roundDouble x = of_int n * 2 powi q"
    using False by (simp add: roundDouble_def q_def n_def)
  have q: "- 1074 \<le> q"
    unfolding q_def by (rule ulpExponent_bound [OF False])
  have "\<bar>x / 2 powi q\<bar> = \<bar>x\<bar> / 2 powi q"
    by (simp add: abs_divide)
  also have "\<dots> < 2 powi (53 + q) / 2 powi q"
    using ulpExponent_bound(1) [OF False] by (simp add: q_def divide_strict_right_mono)
  also have "\<dots> = 2 ^ 53"
    by (simp add: power_int_add)
  finally have "\<bar>n\<bar> \<le> 2 ^ 53"
    unfolding n_def by (rule roundEven_bound)
  then consider "\<bar>n\<bar> < 2 ^ 53" | "n = 2 ^ 53" | "n = - (2 ^ 53)" by linarith
  then show ?thesis
  proof cases
    case 1
    then show ?thesis unfolding r using q by (rule roundDouble_dyadic)
  next
    case 2
    have "of_int n * 2 powi q = (of_int (2 ^ 52) * 2 powi (q + 1) :: real)"
      unfolding 2 by (simp add: power_int_add)
    moreover have "roundDouble (of_int (2 ^ 52) * 2 powi (q + 1)) = of_int (2 ^ 52) * 2 powi (q + 1)"
      using q by (intro roundDouble_dyadic) simp_all
    ultimately show ?thesis unfolding r by simp
  next
    case 3
    have "of_int n * 2 powi q = (of_int (- (2 ^ 52)) * 2 powi (q + 1) :: real)"
      unfolding 3 by (simp add: power_int_add)
    moreover have "roundDouble (of_int (- (2 ^ 52)) * 2 powi (q + 1))
                   = of_int (- (2 ^ 52)) * 2 powi (q + 1)"
      using q by (intro roundDouble_dyadic) simp_all
    ultimately show ?thesis unfolding r by simp
  qed
qed

lemma fl_add_zero: "fl x + Fin 0 = fl x"
proof -
  consider "fl x = PInf" | "fl x = NInf" | r where "fl x = Fin r"
    using fl_cases [of x] by blast
  then show ?thesis
  proof cases
    case 3
    then have r: "r = roundDouble x" and b: "\<not> maxDouble < r" "\<not> r < - maxDouble"
      by (auto simp: fl_def Let_def split: if_splits)
    have "fl r = Fin r"
      using b by (simp add: fl_def Let_def r roundDouble_idem)
    with 3 show ?thesis by simp
  qed simp_all
qed

lemma product_add_zero: "a * b + Fin 0 = a * b" for a b :: number
  by (cases a; cases b) (simp_all add: fl_add_zero)







section \<open>Finite values\<close>

lemma isFinite_Fin: "isFinite v \<Longrightarrow> \<exists>r. v = Fin r"
  by (cases v) auto

lemma finiteFrame_lookup:
  "finiteFrame f \<Longrightarrow> map_of (markers f) k = Some m \<Longrightarrow> finiteMarker m"
  by (auto simp: finiteFrame_def list_all_iff dest!: map_of_SomeD)

section \<open>Arithmetic helpers\<close>

lemma sqrt_square_nonneg: "0 \<le> a \<Longrightarrow> sqrt (a * a) = (a::real)"
  by (simp add: real_sqrt_mult)

lemma sqrt_25: "sqrt 25 = (5::real)"
  using sqrt_square_nonneg [of 5] by simp

lemma sqrt_225_4: "sqrt (225 / 4) = (15 / 2 :: real)"
  using sqrt_square_nonneg [of "15 / 2"] by simp

section \<open>The solver on one joint: the scenario of the specification\<close>

lemma scenario_distance_before:
  "calculateDistance (Fin 0, Fin 0) (Fin 3, Fin 4) = Fin 5"
  by (simp add: calculateDistance_def Math_pow2_def minus_number_def sqrt_25 fl_small)

lemma scenario_distance_after:
  "calculateDistance (Fin (- 3 / 4), Fin (- 1)) (Fin (15 / 4), Fin 5) = Fin (15 / 2)"
  by (simp add: calculateDistance_def Math_pow2_def minus_number_def sqrt_225_4 fl_small)

lemma scenario_graph:
  "initGraph \<lparr>frameNumber = n, timestamp = t, markers =
       [(''A'', \<lparr>mx = Fin 0, my = Fin 0, confidence = Fin 1, isVisible = True\<rparr>),
        (''B'', \<lparr>mx = Fin 3, my = Fin 4, confidence = Fin 1, isVisible = True\<rparr>)]\<rparr>
   = [(''A'', \<lparr>newPosition = (Fin 0, Fin 0), weight = Fin 1\<rparr>),
      (''B'', \<lparr>newPosition = (Fin 3, Fin 4), weight = Fin 1\<rparr>)]"
  by (simp add: initGraph_def)

lemma scenario_pass:
  "constrainJoint
     \<lparr>startMarkerId = ''A'', endMarkerId = ''B'', jointLength = Fin 10, jointName = nm\<rparr>
     [(''A'', \<lparr>newPosition = (Fin 0, Fin 0), weight = Fin 1\<rparr>),
      (''B'', \<lparr>newPosition = (Fin 3, Fin 4), weight = Fin 1\<rparr>)]
   = [(''A'', \<lparr>newPosition = (Fin (- 3 / 4), Fin (- 1)), weight = Fin 1\<rparr>),
      (''B'', \<lparr>newPosition = (Fin (15 / 4), Fin 5), weight = Fin 1\<rparr>)]"
  by (simp add: constrainJoint_def scenario_distance_before Let_def minus_number_def fl_small)

text \<open>
  C5. On the frame with \<open>A\<close> at \<open>(0, 0)\<close> and \<open>B\<close> at \<open>(3, 4)\<close>, both visible with
  confidence 1, and the single joint \<open>A\<close>-\<open>B\<close> of target length 10, one iteration of
  \<open>applyLengthConstraints\<close> gives both endpoints the weight \<open>1 / 2\<close>, so each moves by
  the same amount in opposite directions (\<open>A\<close> to \<open>(-0.75, -1)\<close>, \<open>B\<close> to
  \<open>(3.75, 5)\<close>), and the distance between them is exactly 7.5. Nothing else of the
  frame changes.
\<close>

theorem solve_scenario_distance:
  "applyLengthConstraints
     \<lparr>frameNumber = n, timestamp = t, markers =
       [(''A'', \<lparr>mx = Fin 0, my = Fin 0, confidence = Fin 1, isVisible = True\<rparr>),
        (''B'', \<lparr>mx = Fin 3, my = Fin 4, confidence = Fin 1, isVisible = True\<rparr>)]\<rparr>
     [\<lparr>startMarkerId = ''A'', endMarkerId = ''B'', jointLength = Fin 10, jointName = nm\<rparr>] 1
   = \<lparr>frameNumber = n, timestamp = t, markers =
       [(''A'', \<lparr>mx = Fin (- 3 / 4), my = Fin (- 1), confidence = Fin 1, isVisible = True\<rparr>),
        (''B'', \<lparr>mx = Fin (15 / 4), my = Fin 5, confidence = Fin 1, isVisible = True\<rparr>)]\<rparr>
   \<and> markerDistance
       (applyLengthConstraints
          \<lparr>frameNumber = n, timestamp = t, markers =
            [(''A'', \<lparr>mx = Fin 0, my = Fin 0, confidence = Fin 1, isVisible = True\<rparr>),
             (''B'', \<lparr>mx = Fin 3, my = Fin 4, confidence = Fin 1, isVisible = True\<rparr>)]\<rparr>
          [\<lparr>startMarkerId = ''A'', endMarkerId = ''B'', jointLength = Fin 10, jointName = nm\<rparr>] 1)
       ''A'' ''B'' = Some (Fin (15 / 2))"
proof -
  have run: "applyLengthConstraints
     \<lparr>frameNumber = n, timestamp = t, markers =
       [(''A'', \<lparr>mx = Fin 0, my = Fin 0, confidence = Fin 1, isVisible = True\<rparr>),
        (''B'', \<lparr>mx = Fin 3, my = Fin 4, confidence = Fin 1, isVisible = True\<rparr>)]\<rparr>
     [\<lparr>startMarkerId = ''A'', endMarkerId = ''B'', jointLength = Fin 10, jointName = nm\<rparr>] 1
   = \<lparr>frameNumber = n, timestamp = t, markers =
       [(''A'', \<lparr>mx = Fin (- 3 / 4), my = Fin (- 1), confidence = Fin 1, isVisible = True\<rparr>),
        (''B'', \<lparr>mx = Fin (15 / 4), my = Fin 5, confidence = Fin 1, isVisible = True\<rparr>)]\<rparr>"
    by (simp add: applyLengthConstraints_def scenario_graph scenario_pass writeBack_def)
  show ?thesis
    unfolding run using scenario_distance_after
    by (simp add: markerDistance_def position_def)
qed

section \<open>The solver with confidences that sum to zero\<close>

text \<open>
  C4. Two visible endpoints with confidence 0 at distance 5, a joint of target length 10,
  one iteration: \<open>totalWeight\<close> is 0, both weights are \<open>0 / 0\<close>, and the solver
  writes \<open>NaN\<close> into both coordinates of both markers. The division by \<open>totalWeight\<close>
  has no guard, where the fusion and the smoothing filter test their weight sums with
  \<open>> 0\<close> before dividing.
\<close>

theorem solve_zero_confidence_NaN:
  "applyLengthConstraints
     (mkFrame [(''A'', sample 0 0 0 True), (''B'', sample 3 4 0 True)])
     [mkJoint ''A'' ''B'' 10] 1
   = mkFrame
       [(''A'', \<lparr>mx = NaN, my = NaN, confidence = Fin 0, isVisible = True\<rparr>),
        (''B'', \<lparr>mx = NaN, my = NaN, confidence = Fin 0, isVisible = True\<rparr>)]"
  by (simp add: applyLengthConstraints_def initGraph_def constrainJoint_def writeBack_def
      mkFrame_def mkJoint_def sample_def scenario_distance_before Let_def minus_number_def
      fl_small)

section \<open>The solver with no iterations\<close>

lemma initGraph_fold_lookup:
  "distinct (map fst ms) \<Longrightarrow>
   map_of (fold (\<lambda>(markerId, marker) graph.
             if isVisible marker
             then AList.update markerId
                    \<lparr>newPosition = (mx marker, my marker), weight = confidence marker\<rparr> graph
             else graph) ms acc) k =
   (case map_of ms k of
      Some m \<Rightarrow> if isVisible m then Some \<lparr>newPosition = (mx m, my m), weight = confidence m\<rparr>
                else map_of acc k
    | None \<Rightarrow> map_of acc k)"
proof (induction ms arbitrary: acc)
  case Nil
  then show ?case by simp
next
  case (Cons p ms)
  obtain k' m' where p: "p = (k', m')" by (cases p)
  from Cons.prems have d: "distinct (map fst ms)" and nin: "k' \<notin> fst ` set ms"
    by (auto simp: p)
  from nin have none: "map_of ms k' = None"
    by (simp add: map_of_eq_None_iff)
  show ?case
    using Cons.IH [OF d] none
    by (auto simp: p update_conv' split: option.splits)
qed

lemma initGraph_fold_distinct:
  "distinct (map fst acc) \<Longrightarrow>
   distinct (map fst (fold (\<lambda>(markerId, marker) graph.
             if isVisible marker
             then AList.update markerId
                    \<lparr>newPosition = (mx marker, my marker), weight = confidence marker\<rparr> graph
             else graph) ms acc))"
  by (induction ms arbitrary: acc) (auto simp: distinct_update)

lemma initGraph_distinct: "distinct (map fst (initGraph frame))"
  unfolding initGraph_def by (rule initGraph_fold_distinct) simp

lemma initGraph_lookup:
  "wellFormed frame \<Longrightarrow>
   map_of (initGraph frame) k =
   (case map_of (markers frame) k of
      Some m \<Rightarrow> if isVisible m then Some \<lparr>newPosition = (mx m, my m), weight = confidence m\<rparr>
                else None
    | None \<Rightarrow> None)"
  unfolding initGraph_def wellFormed_def
  by (simp add: initGraph_fold_lookup split: option.splits)

lemma writeBack_same:
  "(\<And>k nd m. (k, nd) \<in> set g \<Longrightarrow> map_of ms k = Some m \<Longrightarrow> newPosition nd = (mx m, my m))
   \<Longrightarrow> writeBack g ms = ms"
proof (induction g)
  case Nil
  then show ?case by (simp add: writeBack_def)
next
  case (Cons p g)
  obtain k nd where p: "p = (k, nd)" by (cases p)
  have step: "(case map_of ms k of
               Some m \<Rightarrow> AList.update k (m\<lparr>mx := fst (newPosition nd), my := snd (newPosition nd)\<rparr>) ms
             | None \<Rightarrow> ms) = ms"
  proof (cases "map_of ms k")
    case None
    then show ?thesis by simp
  next
    case (Some m)
    with Cons.prems [of k nd m] have "newPosition nd = (mx m, my m)" by (simp add: p)
    with Some show ?thesis by (simp add: update_triv)
  qed
  have "writeBack g ms = ms"
    using Cons.prems by (intro Cons.IH) auto
  with step show ?case
    by (simp add: writeBack_def p)
qed

text \<open>
  C7. With \<open>iterations = 0\<close> the solver returns the frame it was given: the working
  positions are the positions of the visible markers, and writing them back changes no
  sample, so every marker keeps its position, confidence and visibility, and the keys,
  \<open>frameNumber\<close> and \<open>timestamp\<close> are those of the input. The frame is an object, with
  each key once.
\<close>

theorem solve_zero_iterations:
  assumes "wellFormed frame"
  shows "applyLengthConstraints frame joints 0 = frame"
proof -
  have "writeBack (initGraph frame) (markers frame) = markers frame"
  proof (rule writeBack_same)
    fix k nd m
    assume mem: "(k, nd) \<in> set (initGraph frame)" and look: "map_of (markers frame) k = Some m"
    have "distinct (map fst (initGraph frame))"
      by (rule initGraph_distinct)
    with mem have "map_of (initGraph frame) k = Some nd" by simp
    with look show "newPosition nd = (mx m, my m)"
      using initGraph_lookup [OF assms, of k] by (auto split: if_splits)
  qed
  then show ?thesis by (simp add: applyLengthConstraints_def)
qed

theorem solve_zero_iterations_witness:
  "wellFormed (mkFrame [(''A'', sample 0 0 1 True), (''B'', sample 3 4 1 True),
                        (''C'', sample 1 1 0 False)])
   \<and> applyLengthConstraints
       (mkFrame [(''A'', sample 0 0 1 True), (''B'', sample 3 4 1 True),
                 (''C'', sample 1 1 0 False)])
       [mkJoint ''A'' ''B'' 10, mkJoint ''B'' ''C'' 2] 0
     = mkFrame [(''A'', sample 0 0 1 True), (''B'', sample 3 4 1 True),
                (''C'', sample 1 1 0 False)]"
proof -
  have wf: "wellFormed (mkFrame [(''A'', sample 0 0 1 True), (''B'', sample 3 4 1 True),
                                 (''C'', sample 1 1 0 False)])"
    by (simp add: wellFormed_def mkFrame_def)
  show ?thesis
    using wf solve_zero_iterations [OF wf] by simp
qed

section \<open>One joint between two visible markers\<close>




text \<open>Writing the graph back keeps the keys, and changes only the positions.\<close>

lemma writeBack_step_keys:
  "map fst (case map_of ms k of
              Some m \<Rightarrow> AList.update k (m\<lparr>mx := px, my := py\<rparr>) ms
            | None \<Rightarrow> ms) = map fst ms"
  by (auto simp: update_keys map_of_eq_None_iff split: option.splits)

lemma writeBack_keys: "map fst (writeBack g ms) = map fst ms"
  unfolding writeBack_def
  by (induction g arbitrary: ms) (auto simp: writeBack_step_keys)



section \<open>A pass that does not move the distance\<close>














section \<open>A pass without rounding\<close>



section \<open>The estimator on present but invisible endpoints, and its choice of anchor\<close>

lemma fill_anchor_first:
  "fillMissingMarkers
     (mkFrame [(''A'', sample 0 0 1 True), (''C'', sample 1 0 1 True)])
     [mkJoint ''A'' ''C'' 5, mkJoint ''A'' ''B'' 10]
   = mkFrame [(''A'', sample 0 0 1 True), (''C'', sample 1 0 1 True),
              (''B'', sample 10 0 (1 / 2) True)]"
  by (simp add: fillMissingMarkers_def fillJoint_def estimatePosition_def estimatedMarker_def
      mkFrame_def mkJoint_def sample_def Let_def minus_number_def fl_small)

text \<open>
  C2. Marker \<open>A\<close> visible at \<open>(0, 0)\<close>, anchor \<open>C\<close> visible at \<open>(1, 0)\<close>, joints
  \<open>A\<close>-\<open>C\<close> (length 5) and \<open>A\<close>-\<open>B\<close> (length 10). When \<open>B\<close> is absent from the frame,
  \<open>fillMissingMarkers\<close> synthesizes it at \<open>(10, 0)\<close> with confidence 0.5. When \<open>B\<close>
  is present with \<open>isVisible = false\<close>, the frame comes back unchanged: the guards test
  \<open>!endMarker\<close> and \<open>!startMarker\<close>, which a present sample never passes, so an
  invisible endpoint is not treated as an absent one.
\<close>

theorem fill_invisible_not_as_absent:
  "fillMissingMarkers
     (mkFrame [(''A'', sample 0 0 1 True), (''C'', sample 1 0 1 True)])
     [mkJoint ''A'' ''C'' 5, mkJoint ''A'' ''B'' 10]
   = mkFrame [(''A'', sample 0 0 1 True), (''C'', sample 1 0 1 True),
              (''B'', sample 10 0 (1 / 2) True)]
   \<and> fillMissingMarkers
       (mkFrame [(''A'', sample 0 0 1 True), (''C'', sample 1 0 1 True),
                 (''B'', sample 7 7 0 False)])
       [mkJoint ''A'' ''C'' 5, mkJoint ''A'' ''B'' 10]
     = mkFrame [(''A'', sample 0 0 1 True), (''C'', sample 1 0 1 True),
                (''B'', sample 7 7 0 False)]"
proof -
  have "fillMissingMarkers
       (mkFrame [(''A'', sample 0 0 1 True), (''C'', sample 1 0 1 True),
                 (''B'', sample 7 7 0 False)])
       [mkJoint ''A'' ''C'' 5, mkJoint ''A'' ''B'' 10]
     = mkFrame [(''A'', sample 0 0 1 True), (''C'', sample 1 0 1 True),
                (''B'', sample 7 7 0 False)]"
    by (simp add: fillMissingMarkers_def fillJoint_def mkFrame_def mkJoint_def sample_def)
  with fill_anchor_first show ?thesis by simp
qed

text \<open>
  C3. The same frame with the joint \<open>A\<close>-\<open>B\<close> first in the topology. The joints that
  touch the visible endpoint \<open>A\<close> are filtered from the whole list, the joint under
  estimation included, and the first of them is \<open>A\<close>-\<open>B\<close> itself: its other endpoint
  is the missing marker \<open>B\<close>, no anchor is found, and \<open>B\<close> is not synthesized, although
  the first other joint \<open>A\<close>-\<open>C\<close> has a visible anchor. With \<open>A\<close>-\<open>C\<close> first, \<open>B\<close>
  is synthesized.
\<close>

theorem fill_joint_is_own_anchor:
  "fillMissingMarkers
     (mkFrame [(''A'', sample 0 0 1 True), (''C'', sample 1 0 1 True)])
     [mkJoint ''A'' ''B'' 10, mkJoint ''A'' ''C'' 5]
   = mkFrame [(''A'', sample 0 0 1 True), (''C'', sample 1 0 1 True)]
   \<and> map_of (markers (fillMissingMarkers
         (mkFrame [(''A'', sample 0 0 1 True), (''C'', sample 1 0 1 True)])
         [mkJoint ''A'' ''C'' 5, mkJoint ''A'' ''B'' 10])) ''B''
     = Some (sample 10 0 (1 / 2) True)"
proof -
  have "fillMissingMarkers
     (mkFrame [(''A'', sample 0 0 1 True), (''C'', sample 1 0 1 True)])
     [mkJoint ''A'' ''B'' 10, mkJoint ''A'' ''C'' 5]
   = mkFrame [(''A'', sample 0 0 1 True), (''C'', sample 1 0 1 True)]"
    by (simp add: fillMissingMarkers_def fillJoint_def estimatePosition_def
        mkFrame_def mkJoint_def sample_def Let_def)
  then show ?thesis
    by (simp add: fill_anchor_first) (simp add: mkFrame_def)
qed

section \<open>Fusion with blend ratio 0\<close>

text \<open>
  The loop over the entries of the marker-based frame writes, for the key \<open>k\<close>, what
  its own step writes: the steps of the other keys leave \<open>k\<close> alone.
\<close>

lemma blendMarker_other:
  "k' \<noteq> k \<Longrightarrow> map_of (blendMarker sec r (k', m') nm) k = map_of nm k"
  by (simp add: blendMarker_def Let_def update_conv' split: option.splits)

lemma blendMarker_indep:
  "map_of nm k = map_of nm2 k \<Longrightarrow>
   map_of (blendMarker sec r (k, m) nm) k = map_of (blendMarker sec r (k, m) nm2) k"
  by (simp add: blendMarker_def Let_def update_conv' split: option.splits)

lemma blend_fold_others:
  "k \<notin> fst ` set ms \<Longrightarrow> map_of (fold (blendMarker sec r) ms nm) k = map_of nm k"
  by (induction ms arbitrary: nm) (auto simp: blendMarker_other)

lemma blend_fold_lookup:
  "distinct (map fst ms) \<Longrightarrow> map_of ms k = Some m \<Longrightarrow>
   map_of (fold (blendMarker sec r) ms nm) k = map_of (blendMarker sec r (k, m) nm) k"
proof (induction ms arbitrary: nm)
  case Nil
  then show ?case by simp
next
  case (Cons p ms)
  obtain k' m' where p: "p = (k', m')" by (cases p)
  show ?case
  proof (cases "k' = k")
    case True
    with Cons.prems have "m' = m" and "k \<notin> fst ` set ms" by (auto simp: p)
    with True show ?thesis by (simp add: p blend_fold_others)
  next
    case False
    with Cons.prems have d: "distinct (map fst ms)" and l: "map_of ms k = Some m"
      by (auto simp: p)
    have "map_of (fold (blendMarker sec r) ms (blendMarker sec r (k', m') nm)) k
          = map_of (blendMarker sec r (k, m) (blendMarker sec r (k', m') nm)) k"
      by (rule Cons.IH [OF d l])
    also have "\<dots> = map_of (blendMarker sec r (k, m) nm) k"
      by (rule blendMarker_indep) (simp add: blendMarker_other False)
    finally show ?thesis by (simp add: p)
  qed
qed

lemma blend_lookup:
  "wellFormed primary \<Longrightarrow> map_of (markers primary) k = Some m \<Longrightarrow>
   map_of (markers (blendMarkerAndMarkerlessData primary secondary r)) k
   = map_of (blendMarker secondary r (k, m) (markers primary)) k"
  by (simp add: blendMarkerAndMarkerlessData_def wellFormed_def blend_fold_lookup)

text \<open>
  The primary confidence is \<open>0.3\<close> and the primary \<open>x\<close> is \<open>250.5\<close>. Their product
  rounds to \<open>5288211124951449 / 2 ^ 46\<close>, and the quotient of that double by the
  confidence rounds to \<open>8813685208252415 / 2 ^ 45\<close>, the double below \<open>250.5\<close>.
\<close>

lemma c03_double: "fl c03 = Fin c03"
  unfolding c03_def
  by (rule fl_dyadic_div [where m = 5404319552844595 and k = 54]) simp_all

lemma c03_product: "Fin (501 / 2) * Fin c03 = Fin (5288211124951449 / 2 ^ 46)"
  unfolding times_number.simps c03_def
  by (rule fl_near [where e = 6 and q = "- 46" and n = 5288211124951449])
    (simp_all add: power_int_minus)

lemma c03_quotient:
  "Fin (5288211124951449 / 2 ^ 46) / Fin c03 = Fin (8813685208252415 / 2 ^ 45)"
proof -
  have "c03 \<noteq> 0" by (simp add: c03_def)
  moreover have "fl (5288211124951449 / 2 ^ 46 / c03) = Fin (8813685208252415 / 2 ^ 45)"
    unfolding c03_def
    by (rule fl_near [where e = 7 and q = "- 45" and n = 8813685208252415])
      (simp_all add: power_int_minus)
  ultimately show ?thesis by simp
qed

lemma c03_literal: "fl (3 / 10) = Fin c03"
  unfolding c03_def
  by (rule fl_near [where e = "- 2" and q = "- 54" and n = 5404319552844595])
     (simp_all add: power_int_minus)

lemma c03_blend:
  "(Fin (501 / 2) * Fin c03 + Fin 0) / Fin c03 = Fin (8813685208252415 / 2 ^ 45)"
  by (simp only: product_add_zero) (simp only: c03_product c03_quotient)

lemma c03_weights:
  "Fin c03 * (Fin 1 - Fin 0) = Fin c03" "Fin 1 * Fin 0 = Fin 0"
  "Fin c03 + Fin 0 = Fin c03"
  by (simp_all add: minus_number_def c03_double)

lemma c03_positive: "0 < c03"
  by (simp add: c03_def)

text \<open>
  C8, as stated, fails. The primary frame has the marker \<open>A\<close> visible at \<open>x = 250.5\<close>
  with confidence \<open>0.3\<close>, the secondary frame has it visible at \<open>(1, 1)\<close> with
  confidence 1, and the blend ratio is 0. The weights are \<open>0.3\<close> and 0, their sum is
  positive, and the result has \<open>x = (250.5 * 0.3 + 1 * 0) / 0.3\<close>, which is
  \<open>250.49999999999997\<close>: the primary confidence is positive and the position is not
  the primary's.
\<close>

theorem fuse_rounds_primary_position:
  "fl (3 / 10) = Fin c03
   \<and> Fin 0 < confidence (sample (501 / 2) 0 c03 True)
   \<and> map_option mx (map_of (markers (blendMarkerAndMarkerlessData
         (mkFrame [(''A'', sample (501 / 2) 0 c03 True)])
         (mkFrame [(''A'', sample 1 1 1 True)]) (Fin 0))) ''A'')
     = Some (Fin (8813685208252415 / 2 ^ 45))
   \<and> Fin (8813685208252415 / 2 ^ 45) \<noteq> mx (sample (501 / 2) 0 c03 True)"
proof -
  have "map_option mx (map_of (markers (blendMarkerAndMarkerlessData
         (mkFrame [(''A'', sample (501 / 2) 0 c03 True)])
         (mkFrame [(''A'', sample 1 1 1 True)]) (Fin 0))) ''A'')
     = Some (Fin (8813685208252415 / 2 ^ 45))"
    by (simp add: blendMarkerAndMarkerlessData_def blendMarker_def mkFrame_def sample_def
        Let_def c03_weights c03_positive c03_blend
        del: plus_number.simps times_number.simps divide_number.simps)
  moreover have "Fin 0 < confidence (sample (501 / 2) 0 c03 True)"
    by (simp add: sample_def c03_positive)
  moreover have "Fin (8813685208252415 / 2 ^ 45) \<noteq> mx (sample (501 / 2) 0 c03 True)"
    by (simp add: sample_def)
  ultimately show ?thesis
    using c03_literal by (intro conjI)
qed

text \<open>
  A secondary sample with an infinite coordinate and weight 0 contributes
  \<open>Infinity * 0\<close>, which is \<open>NaN\<close>, to the weighted sum.
\<close>

lemma blend_infinite_secondary:
  "map_option mx (map_of (markers (blendMarkerAndMarkerlessData
         (mkFrame [(''A'', sample 1 2 1 True)])
         (mkFrame [(''A'', \<lparr>mx = PInf, my = Fin 0, confidence = Fin 1, isVisible = True\<rparr>)])
         (Fin 0))) ''A'')
     = Some NaN"
  by (simp add: blendMarkerAndMarkerlessData_def blendMarker_def mkFrame_def sample_def
        Let_def minus_number_def)

text \<open>
  C8, amended. \<open>blendMarkerAndMarkerlessData\<close> with \<open>blendRatio = 0\<close>, the primary
  frame an object with each key once. Every key \<open>k\<close> of the primary frame, with sample
  \<open>m\<close>, is a key of the result. If the secondary frame has no sample for \<open>k\<close>, or an
  invisible one, or if \<open>m\<close> is invisible, or if the weight sum
  \<open>confidence m * (1 - 0) + confidence s * 0\<close> is not greater than 0, the result has
  the primary sample \<open>m\<close> itself. If both samples are visible, the secondary sample is
  finite and the primary confidence is a positive double \<open>c\<close>, the result has the
  coordinates \<open>x * c / c\<close> and \<open>y * c / c\<close>, both operations rounded: a coordinate
  is the primary's when it is a double whose product with \<open>c\<close> is a double too.
\<close>

theorem fuse_ratio_zero:
  assumes wf: "wellFormed primary"
    and look: "map_of (markers primary) k = Some m"
  shows "\<exists>m'. map_of (markers (blendMarkerAndMarkerlessData primary secondary (Fin 0))) k = Some m'
          \<and> (map_of (markers secondary) k = None \<longrightarrow> m' = m)
          \<and> (\<forall>s. map_of (markers secondary) k = Some s \<longrightarrow>
                (\<not> isVisible m \<or> \<not> isVisible s
                   \<or> \<not> Fin 0 < confidence m * (Fin 1 - Fin 0) + confidence s * Fin 0
                 \<longrightarrow> m' = m)
              \<and> (isVisible m \<and> isVisible s \<and> finiteMarker s
                   \<and> confidence m = Fin c \<and> exactDouble c \<and> 0 < c
                 \<longrightarrow> mx m' = mx m * Fin c / Fin c \<and> my m' = my m * Fin c / Fin c
                     \<and> (mx m = Fin x \<and> exactDouble x \<and> exactDouble (x * c) \<longrightarrow> mx m' = Fin x)
                     \<and> (my m = Fin y \<and> exactDouble y \<and> exactDouble (y * c) \<longrightarrow> my m' = Fin y)))"
proof (cases "map_of (markers secondary) k")
  case None
  then show ?thesis
    using look by (simp add: blend_lookup [OF wf look] blendMarker_def)
next
  case (Some s)
  let ?w1 = "confidence m * (Fin 1 - Fin 0)"
  let ?w2 = "confidence s * Fin 0"
  let ?out = "map_of (markers (blendMarkerAndMarkerlessData primary secondary (Fin 0))) k"
  have weights: "?w1 = Fin c \<and> ?w2 = Fin 0 \<and> ?w1 + ?w2 = Fin c"
    if "finiteMarker s" "confidence m = Fin c" "exactDouble c"
  proof -
    from that(1) obtain c2 where "confidence s = Fin c2"
      unfolding finiteMarker_def by (metis isFinite_Fin)
    with that(2) fl_exact [OF that(3)] show ?thesis
      by (simp add: minus_number_def)
  qed
  show ?thesis
  proof (cases "isVisible m \<and> isVisible s \<and> Fin 0 < ?w1 + ?w2")
    case False
    then have out: "?out = Some m"
      using look Some by (auto simp: blend_lookup [OF wf look] blendMarker_def Let_def)
    have "\<not> (isVisible m \<and> isVisible s \<and> finiteMarker s
              \<and> confidence m = Fin c \<and> exactDouble c \<and> 0 < c)"
      using False weights by auto
    with out Some show ?thesis
      by auto
  next
    case True
    let ?m' = "m\<lparr>mx := (mx m * ?w1 + mx s * ?w2) / (?w1 + ?w2),
                  my := (my m * ?w1 + my s * ?w2) / (?w1 + ?w2),
                  confidence := Math_max (confidence m) (confidence s)\<rparr>"
    have out: "?out = Some ?m'"
      using look Some True
      by (simp add: blend_lookup [OF wf look] blendMarker_def Let_def update_conv')
    have blended: "mx ?m' = mx m * Fin c / Fin c \<and> my ?m' = my m * Fin c / Fin c"
      if "finiteMarker s" "confidence m = Fin c" "exactDouble c"
    proof -
      from that(1) obtain x2 y2 where s: "mx s = Fin x2" "my s = Fin y2"
        unfolding finiteMarker_def by (metis isFinite_Fin)
      have zero: "Fin x2 * Fin 0 = Fin 0" "Fin y2 * Fin 0 = Fin 0"
        by simp_all
      from weights [OF that] have w: "?w1 = Fin c" "?w2 = Fin 0"
        by simp_all
      have c: "Fin c + Fin 0 = Fin c"
        using fl_exact [OF that(3)] by simp
      have "mx ?m' = (mx m * ?w1 + mx s * ?w2) / (?w1 + ?w2)"
        by simp
      also have "\<dots> = (mx m * Fin c + Fin 0) / Fin c"
        by (simp only: w s zero c)
      finally have x: "mx ?m' = mx m * Fin c / Fin c"
        by (simp only: product_add_zero)
      have "my ?m' = (my m * ?w1 + my s * ?w2) / (?w1 + ?w2)"
        by simp
      also have "\<dots> = (my m * Fin c + Fin 0) / Fin c"
        by (simp only: w s zero c)
      finally have y: "my ?m' = my m * Fin c / Fin c"
        by (simp only: product_add_zero)
      from x y show ?thesis ..
    qed
    have kept: "Fin v * Fin c / Fin c = Fin v"
      if "exactDouble v" "exactDouble (v * c)" "0 < c" for v
      using that by (simp add: fl_exact)
    show ?thesis
      using out Some True blended kept
      by (auto simp del: plus_number.simps times_number.simps divide_number.simps)
  qed
qed

theorem fuse_ratio_zero_witness:
  "wellFormed (mkFrame [(''A'', sample 1 2 (1 / 2) True), (''B'', sample 5 5 0 True)])
   \<and> map_of (markers (mkFrame [(''A'', sample 1 2 (1 / 2) True), (''B'', sample 5 5 0 True)]))
        ''A'' = Some (sample 1 2 (1 / 2) True)
   \<and> map_of (markers (mkFrame [(''A'', sample 9 9 (3 / 4) True), (''B'', sample 6 6 1 True)]))
        ''A'' = Some (sample 9 9 (3 / 4) True)
   \<and> isVisible (sample 1 2 (1 / 2) True) \<and> isVisible (sample 9 9 (3 / 4) True)
   \<and> finiteMarker (sample 9 9 (3 / 4) True)
   \<and> confidence (sample 1 2 (1 / 2) True) = Fin (1 / 2)
   \<and> exactDouble (1 / 2) \<and> (0::real) < 1 / 2
   \<and> exactDouble 1 \<and> exactDouble (1 * (1 / 2)) \<and> exactDouble 2 \<and> exactDouble (2 * (1 / 2))
   \<and> (\<exists>m'. map_of (markers (blendMarkerAndMarkerlessData
                 (mkFrame [(''A'', sample 1 2 (1 / 2) True), (''B'', sample 5 5 0 True)])
                 (mkFrame [(''A'', sample 9 9 (3 / 4) True), (''B'', sample 6 6 1 True)])
                 (Fin 0))) ''A'' = Some m'
          \<and> mx m' = Fin 1 \<and> my m' = Fin 2)
   \<and> map_of (markers (mkFrame [(''A'', sample 1 2 (1 / 2) True), (''B'', sample 5 5 0 True)]))
        ''B'' = Some (sample 5 5 0 True)
   \<and> map_of (markers (mkFrame [(''A'', sample 9 9 (3 / 4) True), (''B'', sample 6 6 1 True)]))
        ''B'' = Some (sample 6 6 1 True)
   \<and> \<not> Fin 0 < confidence (sample 5 5 0 True) * (Fin 1 - Fin 0)
                 + confidence (sample 6 6 1 True) * Fin 0
   \<and> map_of (markers (blendMarkerAndMarkerlessData
                 (mkFrame [(''A'', sample 1 2 (1 / 2) True), (''B'', sample 5 5 0 True)])
                 (mkFrame [(''A'', sample 9 9 (3 / 4) True), (''B'', sample 6 6 1 True)])
                 (Fin 0))) ''B'' = Some (sample 5 5 0 True)"
proof -
  let ?p = "mkFrame [(''A'', sample 1 2 (1 / 2) True), (''B'', sample 5 5 0 True)]"
  let ?s = "mkFrame [(''A'', sample 9 9 (3 / 4) True), (''B'', sample 6 6 1 True)]"
  have wf: "wellFormed ?p"
    by (simp add: wellFormed_def mkFrame_def)
  have look: "map_of (markers ?p) ''A'' = Some (sample 1 2 (1 / 2) True)"
    by (simp add: mkFrame_def)
  have look2: "map_of (markers ?s) ''A'' = Some (sample 9 9 (3 / 4) True)"
    by (simp add: mkFrame_def)
  have side: "isVisible (sample 1 2 (1 / 2) True)" "isVisible (sample 9 9 (3 / 4) True)"
    "finiteMarker (sample 9 9 (3 / 4) True)"
    "confidence (sample 1 2 (1 / 2) True) = Fin (1 / 2)"
    "mx (sample 1 2 (1 / 2) True) = Fin 1" "my (sample 1 2 (1 / 2) True) = Fin 2"
    by (simp_all add: sample_def finiteMarker_def)
  have ex: "exactDouble (1 / 2)" "exactDouble 1" "exactDouble (1 * (1 / 2))"
    "exactDouble 2" "exactDouble (2 * (1 / 2))"
    using exactDouble_dyadic [of 1 "- 1"] exactDouble_dyadic [of 1 0]
      exactDouble_dyadic [of 2 0]
    by simp_all
  from fuse_ratio_zero [OF wf look, of ?s "1 / 2" 1 2] look2 side ex
  have blended: "\<exists>m'. map_of (markers (blendMarkerAndMarkerlessData ?p ?s (Fin 0))) ''A'' = Some m'
          \<and> mx m' = Fin 1 \<and> my m' = Fin 2"
    by auto
  have lookB: "map_of (markers ?p) ''B'' = Some (sample 5 5 0 True)"
    and look2B: "map_of (markers ?s) ''B'' = Some (sample 6 6 1 True)"
    by (simp_all add: mkFrame_def)
  have zero: "\<not> Fin 0 < confidence (sample 5 5 0 True) * (Fin 1 - Fin 0)
                 + confidence (sample 6 6 1 True) * Fin 0"
    by (simp add: sample_def minus_number_def)
  from fuse_ratio_zero [OF wf lookB, of ?s] look2B zero
  have kept: "map_of (markers (blendMarkerAndMarkerlessData ?p ?s (Fin 0))) ''B''
              = Some (sample 5 5 0 True)"
    by auto
  from wf look look2 side(1-4) ex blended lookB look2B zero kept show ?thesis
    by (intro conjI) simp_all
qed

section \<open>Smoothing a window whose confidences sum to zero\<close>

lemma smoothMarker_other:
  "k' \<noteq> k \<Longrightarrow> map_of (smoothMarker frames w i k' nm) k = map_of nm k"
  by (simp add: smoothMarker_def Let_def update_conv' split: prod.splits option.splits)

lemma smooth_fold_lookup:
  "(\<And>nm. smoothMarker frames w i k nm = nm) \<Longrightarrow>
   map_of (fold (smoothMarker frames w i) ks nm) k = map_of nm k"
proof (induction ks arbitrary: nm)
  case Nil
  then show ?case by simp
next
  case (Cons k' ks)
  show ?case
  proof (cases "k' = k")
    case True
    with Cons show ?thesis by simp
  next
    case False
    with Cons show ?thesis by (simp add: smoothMarker_other)
  qed
qed

text \<open>
  C10. Frame \<open>i\<close> of the sequence has a sample \<open>m\<close> for the key \<open>k\<close>, and the sums over
  the window of frame \<open>i\<close> for \<open>k\<close> count at least one visible sample while the summed
  confidence is not greater than 0, in particular when it is 0. Then frame \<open>i\<close> of the
  result of \<open>applyTemporalSmoothing\<close> has the same sample \<open>m\<close> for \<open>k\<close>: the quotients
  by \<open>sumConfidence\<close> are computed only under the guard \<open>sumConfidence > 0\<close>.
\<close>

theorem smoothing_zero_confidence_sum:
  assumes i: "i < length frames"
    and present: "map_of (markers (frames ! i)) k = Some m"
    and sums: "windowSums frames (windowStart windowSize i) (windowEnd frames windowSize i) k
                 = (sumX, sumY, sumConfidence, count)"
    and visible: "0 < count"
    and zero: "\<not> Fin 0 < sumConfidence"
  shows "map_of (markers (applyTemporalSmoothing frames windowSize ! i)) k = Some m"
proof (cases "length frames \<le> 1 \<or> windowSize \<le> 1")
  case True
  with present show ?thesis by (simp add: applyTemporalSmoothing_def)
next
  case False
  have same: "smoothMarker frames windowSize i k nm = nm" for nm
    using sums zero by (simp add: smoothMarker_def)
  have "applyTemporalSmoothing frames windowSize ! i = smoothFrame frames windowSize i"
    using False i by (simp add: applyTemporalSmoothing_def)
  then show ?thesis
    using present smooth_fold_lookup [of frames windowSize i k, OF same]
    by (simp add: smoothFrame_def)
qed

theorem smoothing_zero_confidence_sum_witness:
  "(0::nat) < length [mkFrame [(''A'', sample 1 2 0 True)], mkFrame [(''A'', sample 3 4 0 True)]]
   \<and> map_of (markers ([mkFrame [(''A'', sample 1 2 0 True)],
                        mkFrame [(''A'', sample 3 4 0 True)]] ! 0)) ''A''
       = Some (sample 1 2 0 True)
   \<and> windowSums [mkFrame [(''A'', sample 1 2 0 True)], mkFrame [(''A'', sample 3 4 0 True)]]
        (windowStart 3 0)
        (windowEnd [mkFrame [(''A'', sample 1 2 0 True)], mkFrame [(''A'', sample 3 4 0 True)]] 3 0)
        ''A'' = (Fin 0, Fin 0, Fin 0, 2)
   \<and> map_of (markers (applyTemporalSmoothing
                 [mkFrame [(''A'', sample 1 2 0 True)], mkFrame [(''A'', sample 3 4 0 True)]] 3
               ! 0)) ''A''
       = Some (sample 1 2 0 True)"
proof -
  let ?fs = "[mkFrame [(''A'', sample 1 2 0 True)], mkFrame [(''A'', sample 3 4 0 True)]]"
  have i: "(0::nat) < length ?fs" by simp
  have present: "map_of (markers (?fs ! 0)) ''A'' = Some (sample 1 2 0 True)"
    by (simp add: mkFrame_def)
  have bounds: "windowStart 3 0 = 0" "windowEnd ?fs 3 0 = 1"
    by (simp_all add: windowStart_def windowEnd_def)
  have sums: "windowSums ?fs (windowStart 3 0) (windowEnd ?fs 3 0) ''A''
                = (Fin 0, Fin 0, Fin 0, 2)"
    unfolding bounds
    by (simp add: windowSums_def mkFrame_def sample_def upto.simps fl_small)
  have visible: "(0::nat) < 2" by simp
  have zero: "\<not> Fin 0 < Fin 0" by simp
  from i present sums smoothing_zero_confidence_sum [OF i present sums visible zero]
  show ?thesis by (intro conjI)
qed

section \<open>The synchronizer on a sequence and itself\<close>

text \<open>
  On frames with finite samples every movement is a number that is not negative, or
  \<open>Infinity\<close> when a difference or a sum overflows; it is never \<open>NaN\<close>. The same
  holds for the average product at offset 0, where every product is a square.
\<close>

lemma nonNegative_square: "v \<noteq> NaN \<Longrightarrow> nonNegative (v * v)"
  by (cases v) (auto intro: fl_nonneg)

lemma nonNegative_add: "nonNegative a \<Longrightarrow> nonNegative b \<Longrightarrow> nonNegative (a + b)"
  by (cases a; cases b) (auto intro: fl_nonneg)

lemma nonNegative_sqrt: "nonNegative a \<Longrightarrow> nonNegative (Math_sqrt a)"
  by (cases a) (auto intro: fl_nonneg)

lemma nonNegative_divide: "nonNegative a \<Longrightarrow> 0 < n \<Longrightarrow> nonNegative (a / Fin (real n))"
  by (cases a) (auto intro: fl_nonneg)

lemma difference_not_NaN: "Fin a - Fin b \<noteq> NaN"
  using fl_cases [of "a - b"] by (auto simp: minus_number_def)

lemma calculateDistance_nonNegative:
  assumes "finiteMarker a" "finiteMarker b"
  shows "nonNegative (calculateDistance (position a) (position b))"
proof -
  from assms obtain ax ay bx "by"
    where "mx a = Fin ax" "my a = Fin ay" "mx b = Fin bx" "my b = Fin by"
    unfolding finiteMarker_def by (metis isFinite_Fin)
  then show ?thesis
    unfolding calculateDistance_def position_def Math_pow2_def fst_conv snd_conv
    by (intro nonNegative_sqrt nonNegative_add nonNegative_square)
      (simp_all only: difference_not_NaN not_False_eq_True)
qed

lemma pairMovement_fold_nonNegative:
  "finiteFrame current \<Longrightarrow> finiteFrame prev \<Longrightarrow> nonNegative (fst acc) \<Longrightarrow>
   nonNegative (fst (fold (\<lambda>markerId (totalMovement, numMarkers).
                    case (map_of (markers current) markerId, map_of (markers prev) markerId) of
                      (Some currentMarker, Some prevMarker) \<Rightarrow>
                        if isVisible currentMarker \<and> isVisible prevMarker
                        then (totalMovement
                                + calculateDistance (position currentMarker) (position prevMarker),
                              numMarkers + 1)
                        else (totalMovement, numMarkers)
                    | _ \<Rightarrow> (totalMovement, numMarkers)) ks acc))"
proof (induction ks arbitrary: acc)
  case Nil
  then show ?case by simp
next
  case (Cons k ks)
  obtain t n where acc: "acc = (t, n)" by (cases acc)
  with Cons.prems have t: "nonNegative t" by simp
  show ?case
  proof (cases "map_of (markers current) k")
    case None
    with Cons show ?thesis by (simp add: acc)
  next
    case c: (Some cm)
    show ?thesis
    proof (cases "map_of (markers prev) k")
      case None
      with c Cons show ?thesis by (simp add: acc)
    next
      case p: (Some pm)
      have "nonNegative (calculateDistance (position cm) (position pm))"
        using Cons.prems c p by (blast intro: calculateDistance_nonNegative finiteFrame_lookup)
      with t have "nonNegative (t + calculateDistance (position cm) (position pm))"
        by (rule nonNegative_add)
      with c p Cons show ?thesis by (simp add: acc)
    qed
  qed
qed

lemma pairMovement_nonNegative:
  assumes "finiteFrame current" "finiteFrame prev"
  shows "nonNegative (pairMovement current prev)"
proof -
  let ?r = "fold (\<lambda>markerId (totalMovement, numMarkers).
                    case (map_of (markers current) markerId, map_of (markers prev) markerId) of
                      (Some currentMarker, Some prevMarker) \<Rightarrow>
                        if isVisible currentMarker \<and> isVisible prevMarker
                        then (totalMovement
                                + calculateDistance (position currentMarker) (position prevMarker),
                              numMarkers + 1)
                        else (totalMovement, numMarkers)
                    | _ \<Rightarrow> (totalMovement, numMarkers)) (map fst (markers current)) (Fin 0, 0::nat)"
  have "nonNegative (fst ?r)"
    using assms by (intro pairMovement_fold_nonNegative) simp_all
  then obtain t n where r: "?r = (t, n)" and t: "nonNegative t"
    by (cases ?r) auto
  show ?thesis
    unfolding pairMovement_def r using t by (simp add: nonNegative_divide)
qed

lemma calculateMovement_nonNegative:
  "list_all finiteFrame frames \<Longrightarrow> list_all nonNegative (calculateMovement frames)"
  by (auto simp: calculateMovement_def list_all_iff intro!: pairMovement_nonNegative)

lemma correlationAt_fold_nonNegative:
  "list_all nonNegative a \<Longrightarrow> nonNegative (fst acc) \<Longrightarrow>
   nonNegative (fst (fold (\<lambda>i (correlation, count).
             let markerIdx = i; markerlessIdx = i + 0
             in if 0 \<le> markerIdx \<and> markerIdx < int (length a) \<and>
                   0 \<le> markerlessIdx \<and> markerlessIdx < int (length a)
                then (correlation + a ! nat markerIdx * a ! nat markerlessIdx, count + 1)
                else (correlation, count)) is acc))"
proof (induction "is" arbitrary: acc)
  case Nil
  then show ?case by simp
next
  case (Cons i "is")
  obtain s n where acc: "acc = (s, n)" by (cases acc)
  with Cons.prems have s: "nonNegative s" by simp
  show ?case
  proof (cases "0 \<le> i \<and> i < int (length a)")
    case True
    then have "nonNegative (a ! nat i)"
      using Cons.prems by (auto simp: list_all_length)
    then have "a ! nat i \<noteq> NaN" by auto
    then have "nonNegative (a ! nat i * a ! nat i)" by (rule nonNegative_square)
    with s have "nonNegative (s + a ! nat i * a ! nat i)" by (rule nonNegative_add)
    with True Cons show ?thesis by (simp add: acc Let_def)
  next
    case False
    with Cons show ?thesis by (auto simp: acc Let_def)
  qed
qed

lemma selfAverage_zero_nonNegative:
  assumes "list_all nonNegative a" "averageProduct a a w 0 = Some c"
  shows "nonNegative c"
proof -
  have "nonNegative (fst (correlationAt a a w 0))"
    unfolding correlationAt_def using assms(1)
    by (intro correlationAt_fold_nonNegative) simp_all
  then obtain s n where r: "correlationAt a a w 0 = (s, n)" and s: "nonNegative s"
    by (cases "correlationAt a a w 0") auto
  from assms(2) have "0 < n" "c = s / Fin (real n)"
    by (auto simp: averageProduct_def r split: if_splits)
  with s show ?thesis by (simp add: nonNegative_divide)
qed

lemma nonNegative_above_NInf: "nonNegative c \<Longrightarrow> NInf < c"
  by (cases c) auto

text \<open>The scan over the offsets, in terms of the average products.\<close>

lemma scanOffset_average:
  "scanOffset a b w k (bo, bc) =
     (case averageProduct a b w k of
        Some c \<Rightarrow> if bc < c then (k, c) else (bo, bc)
      | None \<Rightarrow> (bo, bc))"
  by (simp add: scanOffset_def averageProduct_def Let_def split: prod.splits)

lemma scan_none:
  "\<forall>k\<in>set ks. averageProduct a b w k = None \<Longrightarrow> fold (scanOffset a b w) ks st = st"
  by (induction ks arbitrary: st) (auto simp: scanOffset_average split: prod.splits)

lemma scan_below:
  "\<forall>k\<in>set ks. \<forall>c. averageProduct a b w k = Some c \<longrightarrow> c < c0 \<Longrightarrow> snd st < c0 \<Longrightarrow>
   snd (fold (scanOffset a b w) ks st) < c0"
proof (induction ks arbitrary: st)
  case Nil
  then show ?case by simp
next
  case (Cons k ks)
  obtain bo bc where st: "st = (bo, bc)" by (cases st)
  have "snd (scanOffset a b w k st) < c0"
    using Cons.prems by (auto simp: st scanOffset_average split: option.splits)
  with Cons show ?case by simp
qed

lemma scan_keeps:
  "\<forall>k\<in>set ks. \<forall>c. averageProduct a b w k = Some c \<longrightarrow> \<not> c0 < c \<Longrightarrow>
   fold (scanOffset a b w) ks (bo, c0) = (bo, c0)"
  by (induction ks) (auto simp: scanOffset_average split: option.splits)

lemma offsets_split: "0 \<le> M \<Longrightarrow> [- M..M] = [- M..- 1] @ 0 # [1..M]"
  using upto_split3 [of "- M" 0 M] by simp

text \<open>The two example sequences.\<close>

lemma offsets_1: "[- 1..1] = [- 1, 0, 1::int]"
  by (simp add: upto.simps)

lemma window_2: "[0..1] = [0, 1::int]"
  by (simp add: upto.simps)

lemma still4_movement: "calculateMovement still4 = [Fin 0, Fin 0, Fin 0]"
  by (simp add: still4_def calculateMovement_def pairMovement_def frameAt_def sample_def
      calculateDistance_def position_def Math_pow2_def minus_number_def upt_rec fl_small)

lemma still4_best: "findBestOffset [Fin 0, Fin 0, Fin 0] [Fin 0, Fin 0, Fin 0] 2 1 = - 1"
  by (simp add: findBestOffset_def scanOffset_def correlationAt_def Let_def offsets_1 window_2
      fl_small)

lemma walk4_movement: "calculateMovement walk4 = [Fin 2, Fin 1, Fin 1]"
  by (simp add: walk4_def calculateMovement_def pairMovement_def frameAt_def sample_def
      calculateDistance_def position_def Math_pow2_def minus_number_def upt_rec fl_small)

lemma walk4_averages:
  "selfAverage walk4 2 (- 1) = Some (Fin 2)"
  "selfAverage walk4 2 0 = Some (Fin (5 / 2))"
  "selfAverage walk4 2 1 = Some (Fin (3 / 2))"
  by (simp_all add: selfAverage_def walk4_movement averageProduct_def correlationAt_def
      Let_def window_2 fl_small)

lemma walk4_finite: "list_all finiteFrame walk4"
  by (simp add: walk4_def frameAt_def sample_def finiteFrame_def finiteMarker_def)

text \<open>
  C1, as stated, fails. In \<open>still4\<close> the marker does not move, so every average product
  is 0. The scan starts at offset \<open>-1\<close>, which has one valid pair in a window of 2 and
  beats the initial \<open>-Infinity\<close>; offset 0 is not strictly greater and does not
  replace it. The synchronizer selects \<open>-1\<close> and drops the first frame of its second
  argument.
\<close>

theorem align_self_still_drops_frame:
  "2 \<le> int (length still4)
   \<and> synchronizeData still4 still4 2 = (still4, drop 1 still4)
   \<and> synchronizeData still4 still4 2 \<noteq> (still4, still4)"
proof -
  have len: "length still4 = 4" by (simp add: still4_def)
  have run: "synchronizeData still4 still4 2 = (still4, drop 1 still4)"
    by (simp add: synchronizeData_def len still4_movement still4_best)
  have "length (drop 1 still4) \<noteq> length still4"
    using len by simp
  then have "drop 1 still4 \<noteq> still4"
    by (rule contrapos_nn) simp
  with run len show ?thesis by simp
qed

text \<open>
  C1, amended. The synchronizer keeps the first offset, scanning upwards from
  \<open>-maxOffset\<close>, whose average product is greatest. On a sequence of frames with finite
  samples aligned with itself, this is offset 0, and both outputs are the sequence,
  when every negative offset that has a valid pair has a strictly smaller average
  product than offset 0, and no positive offset has a strictly greater one. (A sequence
  of fewer than 4 frames has no other offset than 0.)
\<close>

theorem align_self_offset_zero:
  assumes finite: "list_all finiteFrame seq"
    and neg: "\<forall>k\<in>{- (int (length seq) div 4)..- 1}. \<forall>c. selfAverage seq w k = Some c \<longrightarrow>
                (\<exists>c0. selfAverage seq w 0 = Some c0 \<and> c < c0)"
    and pos: "\<forall>k\<in>{1..int (length seq) div 4}. \<forall>c. selfAverage seq w k = Some c \<longrightarrow>
                (\<exists>c0. selfAverage seq w 0 = Some c0 \<and> \<not> c0 < c)"
  shows "synchronizeData seq seq w = (seq, seq)"
proof -
  let ?m = "calculateMovement seq"
  let ?M = "int (length seq) div 4"
  have M: "0 \<le> ?M" by simp
  have "findBestOffset ?m ?m w ?M = 0"
  proof (cases "selfAverage seq w 0")
    case None
    have "averageProduct ?m ?m w k = None" if k: "k \<in> set [- ?M..?M]" for k
    proof (rule ccontr)
      assume "averageProduct ?m ?m w k \<noteq> None"
      then obtain c where c: "selfAverage seq w k = Some c"
        by (auto simp: selfAverage_def)
      from k consider "k \<in> {- ?M..- 1}" | "k = 0" | "k \<in> {1..?M}"
        by (cases "k < 0"; cases "k = 0") auto
      then show False
      proof cases
        case 1
        with neg c None show False by auto
      next
        case 2
        with c None show False by simp
      next
        case 3
        with pos c None show False by auto
      qed
    qed
    then show ?thesis
      by (simp add: findBestOffset_def scan_none)
  next
    case (Some c0)
    then have avg0: "averageProduct ?m ?m w 0 = Some c0" by (simp add: selfAverage_def)
    have "nonNegative c0"
      using finite avg0
      by (blast intro: selfAverage_zero_nonNegative calculateMovement_nonNegative)
    then have start: "snd (0::int, NInf) < c0"
      by (simp add: nonNegative_above_NInf)
    have below: "snd (fold (scanOffset ?m ?m w) [- ?M..- 1] (0, NInf)) < c0"
      using neg Some start by (intro scan_below) (auto simp: selfAverage_def)
    obtain bo bc where st: "fold (scanOffset ?m ?m w) [- ?M..- 1] (0, NInf) = (bo, bc)"
      by (cases "fold (scanOffset ?m ?m w) [- ?M..- 1] (0, NInf)")
    with below have "bc < c0" by simp
    then have at0: "scanOffset ?m ?m w 0 (bo, bc) = (0, c0)"
      by (simp add: scanOffset_average avg0)
    have keeps: "fold (scanOffset ?m ?m w) [1..?M] (0, c0) = (0, c0)"
      using pos Some by (intro scan_keeps) (auto simp: selfAverage_def)
    show ?thesis
      by (simp add: findBestOffset_def offsets_split [OF M] st at0 keeps)
  qed
  then show ?thesis
    by (simp add: synchronizeData_def Let_def)
qed

theorem align_self_offset_zero_witness:
  "list_all finiteFrame walk4
   \<and> int (length walk4) div 4 = 1
   \<and> selfAverage walk4 2 (- 1) = Some (Fin 2)
   \<and> selfAverage walk4 2 0 = Some (Fin (5 / 2))
   \<and> selfAverage walk4 2 1 = Some (Fin (3 / 2))
   \<and> synchronizeData walk4 walk4 2 = (walk4, walk4)"
proof -
  have M: "int (length walk4) div 4 = 1" by (simp add: walk4_def)
  have neg: "\<forall>k\<in>{- (int (length walk4) div 4)..- 1}. \<forall>c. selfAverage walk4 2 k = Some c \<longrightarrow>
                (\<exists>c0. selfAverage walk4 2 0 = Some c0 \<and> c < c0)"
    unfolding M by (auto simp: walk4_averages)
  have pos: "\<forall>k\<in>{1..int (length walk4) div 4}. \<forall>c. selfAverage walk4 2 k = Some c \<longrightarrow>
                (\<exists>c0. selfAverage walk4 2 0 = Some c0 \<and> \<not> c0 < c)"
    unfolding M by (auto simp: walk4_averages)
  from walk4_finite M walk4_averages align_self_offset_zero [OF walk4_finite neg pos]
  show ?thesis by (intro conjI)
qed

section \<open>Window sizes outside their contract\<close>

text \<open>
  The smoothing filter reads \<open>windowSize\<close> in the test \<open>windowSize <= 1\<close> and in
  \<open>Math.floor(windowSize / 2)\<close>, and nowhere else.
\<close>

lemma smoothMarker_floor:
  "\<lfloor>w / 2\<rfloor> = \<lfloor>w' / 2\<rfloor> \<Longrightarrow> smoothMarker frames w = smoothMarker frames w'"
  by (simp add: fun_eq_iff smoothMarker_def windowStart_def windowEnd_def)

lemma applyTemporalSmoothing_floor:
  "1 < w \<Longrightarrow> 1 < w' \<Longrightarrow> \<lfloor>w / 2\<rfloor> = \<lfloor>w' / 2\<rfloor> \<Longrightarrow>
   applyTemporalSmoothing frames w = applyTemporalSmoothing frames w'"
  by (simp add: applyTemporalSmoothing_def smoothFrame_def smoothMarker_floor [of w w'])

text \<open>
  With \<open>syncWindowSize \<le> 0\<close> the test on the lengths is false, the loop over the
  window does not run, no offset has a valid pair, and \<open>bestOffset\<close> stays 0.
\<close>

lemma averageProduct_empty_window: "w \<le> 0 \<Longrightarrow> averageProduct a b w k = None"
  by (simp add: averageProduct_def correlationAt_def)

lemma synchronizeData_empty_window:
  "w \<le> 0 \<Longrightarrow> synchronizeData a b w = (a, b)"
  by (simp add: synchronizeData_def findBestOffset_def scan_none averageProduct_empty_window
      Let_def)

lemma two_frames_half_window:
  "applyTemporalSmoothing twoFrames (5 / 2)
   = [mkFrame [(''A'', sample 2 3 1 True)], mkFrame [(''A'', sample 2 3 1 True)]]"
proof -
  have half: "\<lfloor>(5 / 2 :: real) / 2\<rfloor> = 1" by simp
  have not_small: "\<not> (5 / 2 :: real) \<le> 1" by simp
  show ?thesis
    by (simp add: twoFrames_def applyTemporalSmoothing_def not_small smoothFrame_def
        smoothMarker_def windowStart_def windowEnd_def half windowSums_def window_2
        mkFrame_def sample_def upt_rec fl_small)
qed

text \<open>
  C9, as stated, fails: no invalid size is signalled. With \<open>windowSize = 0\<close> the
  smoothing filter returns its input; with \<open>windowSize = 2.5\<close> it returns the means over
  the window of half-width \<open>floor(2.5 / 2) = 1\<close>; with \<open>compareWindow = -1\<close> the
  synchronizer returns both sequences as they are.
\<close>

theorem invalid_sizes_not_signalled:
  "callApplyTemporalSmoothing twoFrames 0 = Inr twoFrames
   \<and> callApplyTemporalSmoothing twoFrames (5 / 2)
     = Inr [mkFrame [(''A'', sample 2 3 1 True)], mkFrame [(''A'', sample 2 3 1 True)]]
   \<and> callSynchronizeData twoFrames twoFrames (- 1) = Inr (twoFrames, twoFrames)
   \<and> callApplyTemporalSmoothing twoFrames 0 \<noteq> Inl InvalidArgument
   \<and> callApplyTemporalSmoothing twoFrames (5 / 2) \<noteq> Inl InvalidArgument
   \<and> callSynchronizeData twoFrames twoFrames (- 1) \<noteq> Inl InvalidArgument"
  by (simp add: callApplyTemporalSmoothing_def callSynchronizeData_def two_frames_half_window
      synchronizeData_empty_window)
    (simp add: applyTemporalSmoothing_def)

text \<open>
  C9, amended. No operation signals an invalid argument. The smoothing filter returns
  its input for every \<open>windowSize \<le> 1\<close> (zero and negative sizes included); for a
  larger size only \<open>floor(windowSize / 2)\<close> enters the result, so a size that is not an
  integer gives the result of any other size above 1 with the same half-width. The
  synchronizer returns both sequences unchanged for every negative \<open>compareWindow\<close>.
\<close>

theorem invalid_sizes_return:
  "(windowSize \<le> 1 \<longrightarrow> callApplyTemporalSmoothing frames windowSize = Inr frames)
   \<and> (1 < w \<and> 1 < w' \<and> \<lfloor>w / 2\<rfloor> = \<lfloor>w' / 2\<rfloor> \<longrightarrow> callApplyTemporalSmoothing frames' w = callApplyTemporalSmoothing frames' w')
   \<and> (syncWindowSize < 0 \<longrightarrow> callSynchronizeData a b syncWindowSize = Inr (a, b))
   \<and> callApplyTemporalSmoothing frames windowSize \<noteq> Inl InvalidArgument
   \<and> callSynchronizeData a b syncWindowSize \<noteq> Inl InvalidArgument"
proof (intro conjI impI)
  assume "windowSize \<le> 1"
  then show "callApplyTemporalSmoothing frames windowSize = Inr frames"
    by (simp add: callApplyTemporalSmoothing_def applyTemporalSmoothing_def)
next
  assume "1 < w \<and> 1 < w' \<and> \<lfloor>w / 2\<rfloor> = \<lfloor>w' / 2\<rfloor>"
  then show "callApplyTemporalSmoothing frames' w = callApplyTemporalSmoothing frames' w'"
    by (simp add: callApplyTemporalSmoothing_def applyTemporalSmoothing_floor)
next
  assume "syncWindowSize < 0"
  then show "callSynchronizeData a b syncWindowSize = Inr (a, b)"
    by (simp add: callSynchronizeData_def synchronizeData_empty_window)
next
  show "callApplyTemporalSmoothing frames windowSize \<noteq> Inl InvalidArgument"
    by (simp add: callApplyTemporalSmoothing_def)
next
  show "callSynchronizeData a b syncWindowSize \<noteq> Inl InvalidArgument"
    by (simp add: callSynchronizeData_def)
qed

theorem invalid_sizes_return_witness:
  "(0::real) \<le> 1
   \<and> callApplyTemporalSmoothing twoFrames 0 = Inr twoFrames
   \<and> (1::real) < 5 / 2 \<and> (1::real) < 3 \<and> \<lfloor>(5 / 2 :: real) / 2\<rfloor> = \<lfloor>(3::real) / 2\<rfloor>
   \<and> callApplyTemporalSmoothing walk4 (5 / 2) = callApplyTemporalSmoothing walk4 3
   \<and> (- 1 :: int) < 0
   \<and> callSynchronizeData walk4 still4 (- 1) = Inr (walk4, still4)"
proof -
  have small: "(0::real) \<le> 1" by simp
  have big: "(1::real) < 5 / 2 \<and> (1::real) < 3 \<and> \<lfloor>(5 / 2 :: real) / 2\<rfloor> = \<lfloor>(3::real) / 2\<rfloor>"
    by simp
  have negative: "(- 1 :: int) < 0" by simp
  note inst = invalid_sizes_return [of 0 twoFrames "5 / 2" 3 walk4 "- 1" walk4 still4]
  from inst small have 1: "callApplyTemporalSmoothing twoFrames 0 = Inr twoFrames" by blast
  from inst big
  have 2: "callApplyTemporalSmoothing walk4 (5 / 2) = callApplyTemporalSmoothing walk4 3"
    by blast
  from inst negative have 3: "callSynchronizeData walk4 still4 (- 1) = Inr (walk4, still4)"
    by blast
  from small 1 big 2 negative 3 show ?thesis by blast
qed

end
